theory Spec2Isabelle
  imports Main
begin

section \<open>A small shell: the parse / dispatch / launch / reap loop of smallshell.c\<close>

text \<open>
  The program is one C function, \<open>main\<close>, whose body is a \<open>do ... while\<close> loop, and two
  signal handlers. The model follows the loop body stage by stage: reading and tokenising
  the line (lines 163-204), expanding \<open>$$\<close> (206-220), the built-ins \<open>exit\<close>, \<open>cd\<close> and
  \<open>status\<close> (232-292), the foreground and background launch (299-419) and the reaping of
  finished background children (421-440).

  Strings are C strings without their terminating NUL, so a buffer of \<open>n\<close> bytes holds a
  string of at most \<open>n - 1\<close> characters. What the C standard leaves undefined (reading
  through a null pointer, writing past a \<open>malloc\<close>ed block or an array) is a value of the
  type \<open>ub\<close>, returned on the left of a sum.
\<close>

subsection \<open>Undefined behaviour, characters, decimal output\<close>

datatype ub = NullDeref | BufferOverflow

definition nl :: char where
  "nl = CHR 0x0A"

definition digit_char :: "nat \<Rightarrow> char" where
  "digit_char d = ''0123456789'' ! d"

fun digits :: "nat \<Rightarrow> string" where
  "digits n = (if n < 10 then [digit_char n] else digits (n div 10) @ [digit_char (n mod 10)])"

declare digits.simps [simp del]

text \<open>\<open>printf("%d", n)\<close>.\<close>

definition show_int :: "int \<Rightarrow> string" where
  "show_int n = (if n < 0 then CHR ''-'' # digits (nat (- n)) else digits (nat n))"

subsection \<open>The C library's \<open>strtok\<close>, \<open>strstr\<close> and bounded buffers\<close>

text \<open>
  \<open>strtok(s, delims)\<close> skips the leading characters of \<open>s\<close> that occur in \<open>delims\<close>; if
  nothing is left it returns \<open>NULL\<close> (here \<open>None\<close>). Otherwise the token runs up to the next
  delimiter, which is overwritten by NUL, and the saved position is the character after it.
  The second component is the string a later \<open>strtok(NULL, delims)\<close> continues with.
  The second argument is a set of characters: \<open>"$$"\<close> is the one delimiter \<open>$\<close>.
\<close>

definition strtok :: "string \<Rightarrow> string \<Rightarrow> (string \<times> string) option" where
  "strtok s delims =
     (let q = dropWhile (\<lambda>c. c \<in> set delims) s
      in if q = [] then None
         else Some (takeWhile (\<lambda>c. c \<notin> set delims) q,
                    drop 1 (dropWhile (\<lambda>c. c \<notin> set delims) q)))"

text \<open>All the tokens that \<open>strtok(s, delims)\<close> followed by repeated
  \<open>strtok(NULL, delims)\<close> returns, in order.\<close>

function strtok_all :: "string \<Rightarrow> string \<Rightarrow> string list" where
  "strtok_all s delims =
     (case strtok s delims of None \<Rightarrow> [] | Some (t, r) \<Rightarrow> t # strtok_all r delims)"
  by pat_completeness auto
termination
proof (relation "measure (\<lambda>(s, delims). length s)")
  show "wf (measure (\<lambda>(s, delims). length s))"
    by simp
next
  fix s delims :: string and x :: "string \<times> string" and t r :: string
  assume a: "strtok s delims = Some x" and x: "(t, r) = x"
  define q where "q = dropWhile (\<lambda>c. c \<in> set delims) s"
  from a x have b: "(if q = [] then None
      else Some (takeWhile (\<lambda>c. c \<notin> set delims) q,
                 drop 1 (dropWhile (\<lambda>c. c \<notin> set delims) q))) = Some (t, r)"
    unfolding strtok_def q_def Let_def by simp
  have "length r < length s"
  proof (cases q)
    case Nil
    with b show ?thesis by simp
  next
    case (Cons c cs)
    with b have r: "r = drop 1 (dropWhile (\<lambda>c. c \<notin> set delims) q)"
      by simp
    have "hd q \<notin> set delims"
      using Cons hd_dropWhile [of "\<lambda>c. c \<in> set delims" s] by (simp add: q_def)
    with Cons have "dropWhile (\<lambda>c. c \<notin> set delims) q = dropWhile (\<lambda>c. c \<notin> set delims) cs"
      by simp
    moreover have "length (dropWhile (\<lambda>c. c \<notin> set delims) cs) \<le> length cs"
      by (rule length_dropWhile_le)
    moreover have "length q \<le> length s"
      unfolding q_def by (rule length_dropWhile_le)
    ultimately show ?thesis using r Cons by simp
  qed
  then show "((r, delims), (s, delims)) \<in> measure (\<lambda>(s, delims). length s)"
    by simp
qed

declare strtok_all.simps [simp del]

text \<open>\<open>strstr(hay, needle) != NULL\<close>.\<close>

fun strstr :: "string \<Rightarrow> string \<Rightarrow> bool" where
  "strstr [] needle = (needle = [])"
| "strstr (c # cs) needle = (take (length needle) (c # cs) = needle \<or> strstr cs needle)"

text \<open>Writing the string \<open>s\<close> and its NUL into a block of \<open>cap\<close> bytes
  (\<open>strcpy\<close>, \<open>sprintf\<close>).\<close>

definition store :: "nat \<Rightarrow> string \<Rightarrow> ub + string" where
  "store cap s = (if length s < cap then Inr s else Inl BufferOverflow)"

subsection \<open>Parsing the line (lines 163-204)\<close>

text \<open>
  The variables the parser fills: \<open>command\<close> (20 bytes), \<open>args\<close> (an array of 513
  pointers to blocks of 20 bytes; \<open>num_args\<close> is the length of the list), \<open>input_file\<close> and
  \<open>output_file\<close> (25 bytes each) and the flag \<open>run_in_background\<close>. At the top of the loop
  body \<open>memset\<close> puts a NUL at the start of each buffer, so each holds the empty string.
\<close>

record cmdline =
  command :: string
  args :: "string list"
  input_file :: string
  output_file :: string
  run_in_background :: bool

definition empty_cmdline :: cmdline where
  "empty_cmdline =
     \<lparr>command = [], args = [], input_file = [], output_file = [], run_in_background = False\<rparr>"

text \<open>
  The \<open>while (token != NULL)\<close> loop of lines 177-202 over the tokens still to come, the head
  of the list being \<open>token\<close>. After \<open><\<close> and \<open>>\<close> the next token is fetched and copied without
  a test: when there is none, \<open>strcpy\<close> reads through \<open>NULL\<close>. The first argument is the
  global \<open>fg_only_mode\<close>.
\<close>

fun tokenize_loop :: "int \<Rightarrow> string list \<Rightarrow> cmdline \<Rightarrow> ub + cmdline" where
  "tokenize_loop fg [] c = Inr c"
| "tokenize_loop fg (token # rest) c =
     (if token = ''<'' then
        (case rest of
           [] \<Rightarrow> Inl NullDeref
         | f # rest' \<Rightarrow>
             (case store 25 f of
                Inl u \<Rightarrow> Inl u
              | Inr f' \<Rightarrow> tokenize_loop fg rest' (c\<lparr>input_file := f'\<rparr>)))
      else if token = ''>'' then
        (case rest of
           [] \<Rightarrow> Inl NullDeref
         | f # rest' \<Rightarrow>
             (case store 25 f of
                Inl u \<Rightarrow> Inl u
              | Inr f' \<Rightarrow> tokenize_loop fg rest' (c\<lparr>output_file := f'\<rparr>)))
      else if token = ''&'' then
        tokenize_loop fg rest
          (if fg = 0 \<and> command c \<noteq> ''echo'' then c\<lparr>run_in_background := True\<rparr> else c)
      else if 513 \<le> length (args c) then Inl BufferOverflow
      else
        (case store 20 token of
           Inl u \<Rightarrow> Inl u
         | Inr a \<Rightarrow> tokenize_loop fg rest (c\<lparr>args := args c @ [a]\<rparr>)))"

text \<open>Line 204, \<open>args[num_args] = NULL\<close>: the array has the indices 0 to 512.\<close>

definition terminate_args :: "cmdline \<Rightarrow> ub + cmdline" where
  "terminate_args c = (if length (args c) \<le> 512 then Inr c else Inl BufferOverflow)"

text \<open>
  Lines 148 and 163-204. \<open>user_input\<close> is what \<open>fgets(user_input, 2049, stdin)\<close> left in the
  buffer of 2048 bytes: the line with its newline, or the empty string at end of input
  (the buffer then starts with the NUL that \<open>memset\<close> wrote). For a blank line and for a
  comment \<open>token\<close> is set to \<open>NULL\<close>, so the loop is skipped and \<open>command\<close> stays empty. When
  the line holds delimiters only, \<open>strtok\<close> returns \<open>NULL\<close> and \<open>token[0]\<close> reads through it.
\<close>

definition parse_line :: "int \<Rightarrow> string \<Rightarrow> ub + cmdline" where
  "parse_line fg user_input =
     (if 2048 \<le> length user_input then Inl BufferOverflow
      else if take 1 user_input = [nl] then terminate_args empty_cmdline
      else
        (case strtok_all user_input [CHR '' '', nl] of
           [] \<Rightarrow> Inl NullDeref
         | token # rest \<Rightarrow>
             if take 1 token = ''#'' then terminate_args empty_cmdline
             else
               (case store 20 token of
                  Inl u \<Rightarrow> Inl u
                | Inr cmd \<Rightarrow>
                    (case tokenize_loop fg (token # rest) (empty_cmdline\<lparr>command := cmd\<rparr>) of
                       Inl u \<Rightarrow> Inl u
                     | Inr c \<Rightarrow> terminate_args c))))"

subsection \<open>Expanding \<open>$$\<close> (lines 206-220)\<close>

text \<open>
  One round of the \<open>for\<close> loop, for the argument \<open>arg\<close> and the value \<open>pid\<close> of \<open>getpid()\<close>.
  \<open>strtok(args[i], "$$")\<close> returns the first run of characters other than \<open>$\<close>, or \<open>NULL\<close>
  when the argument consists of \<open>$\<close> only; \<open>sprintf\<close> then writes that run and the pid over
  the argument's own 20 bytes. The run starts at or after the start of the block it is
  copied to, and the copy is taken to go from left to right, as the C library does it.
\<close>

definition expand_arg :: "int \<Rightarrow> string \<Rightarrow> ub + string" where
  "expand_arg pid arg =
     (if strstr arg ''$$'' then
        (if arg = ''$$'' then store 20 (show_int pid)
         else
           (case strtok arg ''$$'' of
              None \<Rightarrow> Inl NullDeref
            | Some (tmpstr, _) \<Rightarrow> store 20 (tmpstr @ show_int pid)))
      else Inr arg)"

fun expand_args :: "int \<Rightarrow> string list \<Rightarrow> ub + string list" where
  "expand_args pid [] = Inr []"
| "expand_args pid (a # as) =
     (case expand_arg pid a of
        Inl u \<Rightarrow> Inl u
      | Inr a' \<Rightarrow> (case expand_args pid as of Inl u \<Rightarrow> Inl u | Inr as' \<Rightarrow> Inr (a' # as')))"

subsection \<open>Wait statuses and the operating system\<close>

text \<open>
  The program reads wait statuses with the macros that \<open><stdlib.h>\<close> provides on Linux
  (glibc, \<open>bits/waitstatus.h\<close>):
  \<^verbatim>\<open>
  #define __WEXITSTATUS(status) (((status) & 0xff00) >> 8)
  #define __WTERMSIG(status)    ((status) & 0x7f)
  #define __WIFEXITED(status)   (__WTERMSIG(status) == 0)
  #define __WIFSIGNALED(status) (((signed char) (((status) & 0x7f) + 1) >> 1) > 0)
  \<close>
  A status is an \<open>int\<close>; \<open>and\<close> on \<open>int\<close> is the two's complement one.
\<close>

definition WTERMSIG :: "int \<Rightarrow> int" where
  "WTERMSIG status = and status 0x7f"

definition WEXITSTATUS :: "int \<Rightarrow> int" where
  "WEXITSTATUS status = drop_bit 8 (and status 0xff00)"

definition WIFEXITED :: "int \<Rightarrow> bool" where
  "WIFEXITED status = (WTERMSIG status = 0)"

definition signed_char :: "int \<Rightarrow> int" where
  "signed_char v = (if 128 \<le> v mod 256 then v mod 256 - 256 else v mod 256)"

definition WIFSIGNALED :: "int \<Rightarrow> bool" where
  "WIFSIGNALED status = (0 < signed_char (and status 0x7f + 1) div 2)"

definition SIGKILL :: int where
  "SIGKILL = 9"

definition WNOHANG :: int where
  "WNOHANG = 1"

text \<open>C's value of a comparison: 1 or 0.\<close>

definition c_bool :: "bool \<Rightarrow> int" where
  "c_bool b = (if b then 1 else 0)"

text \<open>
  What the operating system answers during one round of the loop: the value of
  \<open>getpid()\<close>, the value \<open>fork()\<close> returns in this process, and for \<open>waitpid(pid, &st, options)\<close>
  whether the child was collected (the call returns \<open>pid\<close> and stores its status), has not
  changed state yet (the call returns 0, with \<open>WNOHANG\<close> only) or the call failed (-1).
\<close>

datatype wait_answer = Reaped int | NotYet | Failed

record os =
  os_getpid :: int
  os_fork :: int
  os_waitpid :: "int \<Rightarrow> int \<Rightarrow> wait_answer"

text \<open>
  The variables of \<open>main\<close> that live across rounds, and the global \<open>fg_only_mode\<close>.
  \<open>children\<close> is the array of 150 process ids; \<open>num_procs\<close> is the length of the list.
\<close>

record shell =
  fg_only_mode :: int
  childExitMethod :: int
  exit_status :: int
  term_signal :: int
  spawnpid :: int
  children :: "int list"

text \<open>The declarations of lines 28 and 80-87.\<close>

definition initial_shell :: "int \<Rightarrow> shell" where
  "initial_shell pid =
     \<lparr>fg_only_mode = 0, childExitMethod = - 5, exit_status = 0, term_signal = 0,
      spawnpid = pid, children = []\<rparr>"

text \<open>
  What the shell process does that can be seen from outside, in order. \<open>Kill p sig\<close> is the
  call \<open>kill(p, sig)\<close> of \<open>int kill(pid_t pid, int sig)\<close>: the first argument is the process,
  the second the signal. \<open>Waitpid p options\<close> is \<open>waitpid(p, &childExitMethod, options)\<close>.
\<close>

datatype event =
    Printf string
  | Perror string
  | Write string
  | Fork
  | Kill (kill_pid: int) (kill_sig: int)
  | Waitpid int int
  | Chdir_HOME
  | Chdir string

text \<open>
  What a child does after \<open>fork()\<close> returned 0 in it: it opens the files for its standard
  input and output (\<open>None\<close>: left as they are), then calls \<open>execvp(args[0], args)\<close>, where
  \<open>args[0]\<close> is \<open>NULL\<close> when there is no argument. It becomes that program or exits with
  status 1 or 2; it never comes back to the loop.
\<close>

record child =
  child_stdin :: "string option"
  child_stdout :: "string option"
  exec_file :: "string option"
  exec_argv :: "string list"

text \<open>How a round of the loop ends for the process that runs it.\<close>

datatype control = Continue shell | Exit int | Abort | In_child child

definition do_waitpid :: "os \<Rightarrow> int \<Rightarrow> int \<Rightarrow> shell \<Rightarrow> int \<times> shell" where
  "do_waitpid os pid options s =
     (case os_waitpid os pid options of
        Reaped st \<Rightarrow> (pid, s\<lparr>childExitMethod := st\<rparr>)
      | NotYet \<Rightarrow> (0, s)
      | Failed \<Rightarrow> (- 1, s))"

subsection \<open>The signal handlers (lines 31-48)\<close>

definition catchSIGINT :: "shell \<Rightarrow> event list \<times> shell" where
  "catchSIGINT s = ([Write (take 14 (''Caught SIGINT'' @ [nl]))], s)"

definition catchSIGTSTP :: "shell \<Rightarrow> event list \<times> shell" where
  "catchSIGTSTP s =
     (if fg_only_mode s = 0 then
        ([Write (take 49 (''Entering foreground-only mode (& is now ignored)'' @ [nl] @ '': ''))],
         s\<lparr>fg_only_mode := 1\<rparr>)
      else
        ([Write (take 29 (''Exiting foreground-only mode'' @ [nl] @ '': ''))],
         s\<lparr>fg_only_mode := 0\<rparr>))"

subsection \<open>The built-in commands (lines 232-292)\<close>

text \<open>The \<open>for\<close> loop of \<open>exit\<close> over \<open>children[0 .. num_procs - 1]\<close> (lines 235-241).\<close>

fun exit_loop :: "os \<Rightarrow> int list \<Rightarrow> shell \<Rightarrow> event list" where
  "exit_loop os [] s = []"
| "exit_loop os (c # cs) s =
     (if 0 < c then
        Kill SIGKILL c # Waitpid c 0 # exit_loop os cs (snd (do_waitpid os c 0 s))
      else exit_loop os cs s)"

definition exit_builtin :: "os \<Rightarrow> shell \<Rightarrow> event list \<times> control" where
  "exit_builtin os s = (exit_loop os (children s) s, Exit 0)"

definition cd_builtin :: "cmdline \<Rightarrow> shell \<Rightarrow> event list \<times> control" where
  "cd_builtin c s =
     (if length (args c) = 1 then ([Chdir_HOME], Continue s)
      else if length (args c) = 2 then ([Chdir (args c ! 1)], Continue s)
      else ([], Continue s))"

definition status_builtin :: "shell \<Rightarrow> event list \<times> control" where
  "status_builtin s =
     (if WIFEXITED (childExitMethod s) then
        (let s' = s\<lparr>exit_status := WEXITSTATUS (childExitMethod s)\<rparr>
         in ([Printf (''exit value '' @ show_int (exit_status s') @ [nl])], Continue s'))
      else if WIFSIGNALED (childExitMethod s) then
        (let s' = s\<lparr>term_signal := WTERMSIG (childExitMethod s)\<rparr>
         in ([Printf (''terminated by signal '' @ show_int (term_signal s') @ [nl])],
             Continue s'))
      else ([], Continue s))"

subsection \<open>Launching other commands (lines 299-419)\<close>

definition exec_target :: "cmdline \<Rightarrow> string option" where
  "exec_target c = (case args c of [] \<Rightarrow> None | a # _ \<Rightarrow> Some a)"

text \<open>The child of a foreground launch (lines 313-337).\<close>

definition foreground_child :: "cmdline \<Rightarrow> child" where
  "foreground_child c =
     \<lparr>child_stdin = (if input_file c \<noteq> [] then Some (input_file c) else None),
      child_stdout = (if output_file c \<noteq> [] then Some (output_file c) else None),
      exec_file = exec_target c, exec_argv = args c\<rparr>"

text \<open>The child of a background launch (lines 368-401).\<close>

definition background_child :: "cmdline \<Rightarrow> child" where
  "background_child c =
     \<lparr>child_stdin = Some (if input_file c \<noteq> [] then input_file c else ''/dev/null''),
      child_stdout = Some (if output_file c \<noteq> [] then output_file c else ''/dev/null''),
      exec_file = exec_target c, exec_argv = args c\<rparr>"

text \<open>
  Lines 300-355, with the value of \<open>fork_now\<close> on entry. The parent waits for the child
  and classifies the status that \<open>waitpid\<close> stored in \<open>childExitMethod\<close>.
\<close>

definition launch_foreground :: "os \<Rightarrow> int \<Rightarrow> cmdline \<Rightarrow> shell \<Rightarrow> event list \<times> control" where
  "launch_foreground os fork_now c s =
     (let s1 = s\<lparr>spawnpid := os_fork os\<rparr>
      in if 50 \<le> fork_now + 1 then
           ([Fork, Printf (''over 50 forks...aborting...'' @ [nl])], Abort)
         else if spawnpid s1 = - 1 then ([Fork, Perror (''fork error'' @ [nl])], Exit 1)
         else if spawnpid s1 = 0 then ([Fork], In_child (foreground_child c))
         else
           (let s2 = snd (do_waitpid os (spawnpid s1) 0 s1);
                evs = [Fork, Waitpid (spawnpid s1) 0]
            in if WIFEXITED (childExitMethod s2) then
                 (evs, Continue (s2\<lparr>exit_status := WEXITSTATUS (childExitMethod s2)\<rparr>))
               else if WIFSIGNALED (childExitMethod s2) then
                 (let s3 = s2\<lparr>term_signal := WTERMSIG (childExitMethod s2)\<rparr>
                  in (evs @
                      (if term_signal s3 \<noteq> 11 then
                         [Printf (''terminated by signal '' @ show_int (term_signal s3) @ [nl])]
                       else []),
                      Continue s3))
               else (evs, Continue s2)))"

text \<open>
  Lines 356-418. The parent prints the child's pid, stores it in \<open>children[num_procs]\<close>
  (the array has 150 entries) and then looks at \<open>childExitMethod\<close>, which no \<open>waitpid\<close> has
  written for this child; the first test is \<open>WIFEXITED(childExitMethod != 0)\<close>.
\<close>

definition launch_background ::
  "os \<Rightarrow> int \<Rightarrow> cmdline \<Rightarrow> shell \<Rightarrow> ub + event list \<times> control" where
  "launch_background os fork_now c s =
     (let s1 = s\<lparr>spawnpid := os_fork os\<rparr>
      in if 50 \<le> fork_now + 1 then
           Inr ([Fork, Printf (''error: forked over 50 processes. aborting...'' @ [nl])], Abort)
         else if spawnpid s1 = - 1 then Inr ([Fork, Perror (''fork error'' @ [nl])], Exit 1)
         else if spawnpid s1 = 0 then Inr ([Fork], In_child (background_child c))
         else if 150 \<le> length (children s1) then Inl BufferOverflow
         else
           (let evs = [Fork, Printf (''background pid is '' @ show_int (spawnpid s1) @ [nl])];
                s2 = s1\<lparr>children := children s1 @ [spawnpid s1]\<rparr>
            in if WIFEXITED (c_bool (childExitMethod s2 \<noteq> 0)) then
                 Inr (evs, Continue (s2\<lparr>exit_status := WEXITSTATUS (childExitMethod s2)\<rparr>))
               else if WIFSIGNALED (childExitMethod s2) then
                 (let s3 = s2\<lparr>term_signal := WTERMSIG (childExitMethod s2)\<rparr>
                  in Inr (evs @
                          [Printf (''terminated by signal '' @ show_int (term_signal s3) @ [nl])],
                          Continue s3))
               else Inr (evs, Continue s2)))"

subsection \<open>Collecting finished background children (lines 421-440)\<close>

text \<open>
  One round of the \<open>for\<close> loop, for the index \<open>i < num_procs\<close>; \<open>temp\<close> keeps its value
  from the round before when the entry is the flag -5. The first test on the status is
  \<open>WIFEXITED(childExitMethod != 0)\<close>.
\<close>

definition reap_child :: "os \<Rightarrow> nat \<Rightarrow> event list \<times> int \<times> shell \<Rightarrow> event list \<times> int \<times> shell" where
  "reap_child os i acc =
     (case acc of (evs, temp, s) \<Rightarrow>
        (let pid = children s ! i;
             polled = (if pid \<noteq> - 5 then do_waitpid os pid WNOHANG s else (temp, s));
             evs1 = (if pid \<noteq> - 5 then evs @ [Waitpid pid WNOHANG] else evs);
             temp1 = fst polled;
             s1 = snd polled
         in if temp1 = pid then
              (let evs2 = evs1 @ [Printf (''process '' @ show_int pid @ '' completed'' @ [nl])]
               in if WIFEXITED (c_bool (childExitMethod s1 \<noteq> 0)) then
                    (let s2 = s1\<lparr>exit_status := WEXITSTATUS (childExitMethod s1)\<rparr>
                     in (evs2 @ [Printf (''exit value '' @ show_int (exit_status s2) @ [nl])],
                         temp1, s2\<lparr>children := (children s2)[i := - 5]\<rparr>))
                  else if WIFSIGNALED (childExitMethod s1) then
                    (let s2 = s1\<lparr>term_signal := WTERMSIG (childExitMethod s1)\<rparr>
                     in (evs2 @ [Printf (''term sig was '' @ show_int (term_signal s2) @ [nl])],
                         temp1, s2\<lparr>children := (children s2)[i := - 5]\<rparr>))
                  else (evs2, temp1, s1\<lparr>children := (children s1)[i := - 5]\<rparr>))
            else (evs1, temp1, s1)))"

definition reap_children :: "os \<Rightarrow> shell \<Rightarrow> event list \<times> shell" where
  "reap_children os s =
     (case fold (reap_child os) [0 ..< length (children s)] ([], 0, s) of
        (evs, temp, s') \<Rightarrow> (evs, s'))"

subsection \<open>One round of the loop (lines 116-442) and the whole run\<close>

text \<open>The chain of \<open>strcmp(command, ...)\<close> tests of lines 232-419.\<close>

definition dispatch :: "os \<Rightarrow> cmdline \<Rightarrow> shell \<Rightarrow> ub + event list \<times> control" where
  "dispatch os c s =
     (if command c = ''exit'' then Inr (exit_builtin os s)
      else if command c = ''cd'' then Inr (cd_builtin c s)
      else if command c = ''status'' then Inr (status_builtin s)
      else if \<not> run_in_background c then Inr (launch_foreground os 0 c s)
      else launch_background os 0 c s)"

text \<open>
  The body of the \<open>do ... while\<close> loop: prompt, read, parse, expand, dispatch, and, when
  the process is still the shell, the collecting loop.
\<close>

definition loop_body :: "os \<Rightarrow> shell \<Rightarrow> string \<Rightarrow> ub + event list \<times> control" where
  "loop_body os s user_input =
     (case parse_line (fg_only_mode s) user_input of
        Inl u \<Rightarrow> Inl u
      | Inr c0 \<Rightarrow>
          (case expand_args (os_getpid os) (args c0) of
             Inl u \<Rightarrow> Inl u
           | Inr as \<Rightarrow>
               (case dispatch os (c0\<lparr>args := as\<rparr>) s of
                  Inl u \<Rightarrow> Inl u
                | Inr (evs, Continue s1) \<Rightarrow>
                    (case reap_children os s1 of
                       (evs', s2) \<Rightarrow> Inr (Printf '': '' # evs @ evs', Continue s2))
                | Inr (evs, k) \<Rightarrow> Inr (Printf '': '' # evs, k))))"

text \<open>
  What happens to the shell, in order: a line is read and run, with the answers of the
  operating system during that round, or a signal arrives between two rounds.
\<close>

datatype input = Line os string | SIGTSTP | SIGINT

fun run_shell :: "input list \<Rightarrow> shell \<Rightarrow> ub + event list \<times> control" where
  "run_shell [] s = Inr ([], Continue s)"
| "run_shell (Line os user_input # rest) s =
     (case loop_body os s user_input of
        Inl u \<Rightarrow> Inl u
      | Inr (evs, Continue s') \<Rightarrow>
          (case run_shell rest s' of
             Inl u \<Rightarrow> Inl u
           | Inr (evs', k) \<Rightarrow> Inr (evs @ evs', k))
      | Inr (evs, k) \<Rightarrow> Inr (evs, k))"
| "run_shell (SIGTSTP # rest) s =
     (case catchSIGTSTP s of
        (evs, s') \<Rightarrow>
          (case run_shell rest s' of
             Inl u \<Rightarrow> Inl u
           | Inr (evs', k) \<Rightarrow> Inr (evs @ evs', k)))"
| "run_shell (SIGINT # rest) s =
     (case catchSIGINT s of
        (evs, s') \<Rightarrow>
          (case run_shell rest s' of
             Inl u \<Rightarrow> Inl u
           | Inr (evs', k) \<Rightarrow> Inr (evs @ evs', k)))"

subsection \<open>Scenarios\<close>

text \<open>
  Answers of the operating system used in the runs below. The shell has pid 1000.
  \<open>os_fg_exits_1\<close>: the child gets pid 1001 and the blocking wait collects it with the
  status 256 (exit code 1). \<open>os_bg_started\<close>: the child gets pid 1002 and has not ended.
  \<open>os_bg_exited_0\<close>, \<open>os_bg_exited_1\<close>: the child 1002 has ended with exit code 0, 1
  (statuses 0, 256). \<open>os_child_segv\<close>: the child gets pid 1001 and is collected with the
  status 11 (killed by signal 11); \<open>os_child_sigint\<close>: the same with the status 2.
  \<open>os_quiet\<close>: no child has changed state.
\<close>

definition os_fg_exits_1 :: os where
  "os_fg_exits_1 =
     \<lparr>os_getpid = 1000, os_fork = 1001,
      os_waitpid = (\<lambda>pid options. if pid = 1001 \<and> options = 0 then Reaped 256 else NotYet)\<rparr>"

definition os_bg_started :: os where
  "os_bg_started =
     \<lparr>os_getpid = 1000, os_fork = 1002, os_waitpid = (\<lambda>pid options. NotYet)\<rparr>"

definition os_bg_exited_0 :: os where
  "os_bg_exited_0 =
     \<lparr>os_getpid = 1000, os_fork = 1003,
      os_waitpid = (\<lambda>pid options. if pid = 1002 then Reaped 0 else NotYet)\<rparr>"

definition os_bg_exited_1 :: os where
  "os_bg_exited_1 =
     \<lparr>os_getpid = 1000, os_fork = 1003,
      os_waitpid = (\<lambda>pid options. if pid = 1002 then Reaped 256 else NotYet)\<rparr>"

definition os_child_segv :: os where
  "os_child_segv =
     \<lparr>os_getpid = 1000, os_fork = 1001,
      os_waitpid = (\<lambda>pid options. if pid = 1001 \<and> options = 0 then Reaped 11 else NotYet)\<rparr>"

definition os_quiet :: os where
  "os_quiet = \<lparr>os_getpid = 1000, os_fork = 1003, os_waitpid = (\<lambda>pid options. NotYet)\<rparr>"

definition os_child_sigint :: os where
  "os_child_sigint =
     \<lparr>os_getpid = 1000, os_fork = 1001,
      os_waitpid = (\<lambda>pid options. if pid = 1001 \<and> options = 0 then Reaped 2 else NotYet)\<rparr>"

text \<open>The command line \<open>sleep 5\<close> as the parser leaves it.\<close>

definition sleep_cmd :: cmdline where
  "sleep_cmd =
     \<lparr>command = ''sleep'', args = [''sleep'', ''5''], input_file = [], output_file = [],
      run_in_background = False\<rparr>"

text \<open>The shell after one terminal-stop signal: foreground-only mode is on.\<close>

definition stopped_shell :: shell where
  "stopped_shell = snd (catchSIGTSTP (initial_shell 1000))"

subsection \<open>Messages\<close>

text \<open>An event that is the message of line 404, \<open>background pid is ...\<close>.\<close>

definition reports_background_pid :: "event \<Rightarrow> bool" where
  "reports_background_pid e =
     (case e of Printf m \<Rightarrow> take 18 m = ''background pid is '' | _ \<Rightarrow> False)"

section \<open>Properties\<close>

subsection \<open>The built-in \<open>exit\<close>\<close>

text \<open>
  C1. The claim: \<open>exit\<close> sends a forced termination signal to the process id of every
  tracked background job, waits for each, and then ends the shell with status 0.
  With one tracked job, pid 1002, the shell calls \<open>kill(9, 1002)\<close>, that is signal number
  1002 for process 9, since line 237 passes \<open>SIGKILL\<close> where the process id belongs. No
  \<open>kill(1002, SIGKILL)\<close> is made; the blocking \<open>waitpid(1002, ...)\<close> and \<open>exit(0)\<close> follow.
\<close>

theorem exit_kill_arguments_swapped:
  "loop_body os (s\<lparr>children := [1002]\<rparr>) (''exit'' @ [nl])
     = Inr ([Printf '': '', Kill 9 1002, Waitpid 1002 0], Exit 0)
   \<and> Kill 1002 SIGKILL \<notin> set [Printf '': '', Kill 9 1002, Waitpid 1002 0]"
  by code_simp (simp add: SIGKILL_def)

subsection \<open>The built-in \<open>status\<close>\<close>

text \<open>
  C2. The claim: \<open>status\<close> reports the result of the most recently completed foreground
  command, and a background job collected by the reaping loop never changes it.
  In the run below \<open>false\<close> ends in the foreground with exit code 1, \<open>sleep 1 &\<close> is
  started, the first \<open>status\<close> prints \<open>exit value 1\<close>, and at the end of that round the
  reaping loop collects the background job through \<open>waitpid(..., &childExitMethod, WNOHANG)\<close>,
  the variable \<open>status\<close> reads. The second \<open>status\<close> prints \<open>exit value 0\<close>, the result of
  the background job.
\<close>

theorem status_reports_background_result:
  "run_shell
     [Line os_fg_exits_1 (''false'' @ [nl]),
      Line os_bg_started (''sleep 1 &'' @ [nl]),
      Line os_bg_exited_0 (''status'' @ [nl]),
      Line os_quiet (''status'' @ [nl])]
     (initial_shell 1000)
   = Inr ([Printf '': '', Fork, Waitpid 1001 0,
           Printf '': '', Fork, Printf (''background pid is 1002'' @ [nl]), Waitpid 1002 1,
           Printf '': '', Printf (''exit value 1'' @ [nl]),
             Waitpid 1002 1, Printf (''process 1002 completed'' @ [nl]),
             Printf (''exit value 0'' @ [nl]),
           Printf '': '', Printf (''exit value 0'' @ [nl])],
          Continue \<lparr>fg_only_mode = 0, childExitMethod = 0, exit_status = 0,
                    term_signal = 0, spawnpid = 1002, children = [- 5]\<rparr>)"
  by code_simp

text \<open>
  C7. The claim: when no foreground command has completed yet, \<open>status\<close> reports
  \<open>exit value 0\<close>. \<open>childExitMethod\<close> starts as -5 (line 81); its low seven bits are 123,
  so \<open>WIFEXITED\<close> is false, \<open>WIFSIGNALED\<close> is true, and \<open>status\<close> as the first command
  prints \<open>terminated by signal 123\<close>.
\<close>

theorem status_before_any_command:
  "loop_body os (initial_shell pid) (''status'' @ [nl])
     = Inr ([Printf '': '', Printf (''terminated by signal 123'' @ [nl])],
            Continue ((initial_shell pid)\<lparr>term_signal := 123\<rparr>))"
  by code_simp

subsection \<open>Malformed, blank and comment lines\<close>

text \<open>
  C3. The claim: a line whose last token is \<open><\<close> or \<open>>\<close> gets a parse error, launches
  nothing, and the loop goes on, without undefined behaviour. For \<open>ls >\<close> and \<open>cat <\<close>
  the next \<open>strtok\<close> returns \<open>NULL\<close> and lines 181 and 186 pass it to \<open>strcpy\<close>: the
  behaviour is undefined, whatever the state of the shell.
\<close>

theorem dangling_redirection_is_undefined:
  "loop_body os s (''ls >'' @ [nl]) = Inl NullDeref
   \<and> loop_body os s (''cat <'' @ [nl]) = Inl NullDeref"
  by code_simp

text \<open>A blank line always reaches \<open>fork()\<close>, whatever the state and the answers of the
  operating system.\<close>

lemma blank_line_forks:
  "\<exists>evs k. loop_body os s [nl] = Inr (Printf '': '' # Fork # evs, k)"
proof -
  have p: "parse_line (fg_only_mode s) [nl] = Inr empty_cmdline"
    by (simp add: parse_line_def terminate_args_def empty_cmdline_def)
  have d: "dispatch os (empty_cmdline\<lparr>args := []\<rparr>) s
             = Inr (launch_foreground os 0 (empty_cmdline\<lparr>args := []\<rparr>) s)"
    by (simp add: dispatch_def empty_cmdline_def)
  have "\<exists>evs1 k1. launch_foreground os 0 (empty_cmdline\<lparr>args := []\<rparr>) s = (Fork # evs1, k1)"
    by (auto simp: launch_foreground_def Let_def)
  then obtain evs1 k1 where
    l: "launch_foreground os 0 (empty_cmdline\<lparr>args := []\<rparr>) s = (Fork # evs1, k1)"
    by blast
  show ?thesis
  proof (cases k1)
    case (Continue s1)
    obtain evs2 s2 where "reap_children os s1 = (evs2, s2)"
      by (cases "reap_children os s1")
    with p d l Continue show ?thesis
      by (simp add: loop_body_def empty_cmdline_def)
  qed (use p d l in \<open>simp_all add: loop_body_def empty_cmdline_def\<close>)
qed

text \<open>
  C4. The claim: for a blank line and for a comment nothing more happens in that round:
  no process is created and no state changes. In both cases \<open>command\<close> is the empty string,
  which is none of \<open>exit\<close>, \<open>cd\<close>, \<open>status\<close>, so the round falls into the launch of line 299:
  the shell forks, waits for the child (which calls \<open>execvp(NULL, args)\<close>) and overwrites
  \<open>childExitMethod\<close>, \<open>term_signal\<close> and \<open>spawnpid\<close>. The first part holds for every state
  and every answer of the operating system; the others are the rounds for a blank line and
  for a comment in the parent, and for a blank line in the child.
\<close>

theorem blank_and_comment_lines_fork:
  "(\<exists>evs k. loop_body os s [nl] = Inr (Printf '': '' # Fork # evs, k))
   \<and> loop_body os_child_segv (initial_shell 1000) [nl]
     = Inr ([Printf '': '', Fork, Waitpid 1001 0],
            Continue ((initial_shell 1000)
              \<lparr>childExitMethod := 11, term_signal := 11, spawnpid := 1001\<rparr>))
   \<and> loop_body os_child_segv (initial_shell 1000) (''# a comment'' @ [nl])
     = Inr ([Printf '': '', Fork, Waitpid 1001 0],
            Continue ((initial_shell 1000)
              \<lparr>childExitMethod := 11, term_signal := 11, spawnpid := 1001\<rparr>))
   \<and> loop_body (os_child_segv\<lparr>os_fork := 0\<rparr>) (initial_shell 1000) [nl]
     = Inr ([Printf '': '', Fork],
            In_child \<lparr>child_stdin = None, child_stdout = None, exec_file = None,
                      exec_argv = []\<rparr>)"
proof (intro conjI)
  show "\<exists>evs k. loop_body os s [nl] = Inr (Printf '': '' # Fork # evs, k)"
    by (rule blank_line_forks)
next
  show "loop_body os_child_segv (initial_shell 1000) [nl]
     = Inr ([Printf '': '', Fork, Waitpid 1001 0],
            Continue ((initial_shell 1000)
              \<lparr>childExitMethod := 11, term_signal := 11, spawnpid := 1001\<rparr>))"
    by code_simp
next
  show "loop_body os_child_segv (initial_shell 1000) (''# a comment'' @ [nl])
     = Inr ([Printf '': '', Fork, Waitpid 1001 0],
            Continue ((initial_shell 1000)
              \<lparr>childExitMethod := 11, term_signal := 11, spawnpid := 1001\<rparr>))"
    by code_simp
next
  show "loop_body (os_child_segv\<lparr>os_fork := 0\<rparr>) (initial_shell 1000) [nl]
     = Inr ([Printf '': '', Fork],
            In_child \<lparr>child_stdin = None, child_stdout = None, exec_file = None,
                      exec_argv = []\<rparr>)"
    by code_simp
qed

subsection \<open>The reaping loop\<close>

text \<open>
  C6. The claim: for every background job the reaping loop finds terminated, it prints the
  pid and the job's exit value or signal number, and invalidates the slot. For the job
  1002 that ended with exit code 1 (status 256) the loop prints the pid and sets the slot
  to -5, but prints no exit value: line 430 tests \<open>WIFEXITED(childExitMethod != 0)\<close>, which
  holds only for the status 0, and the status 256 is not a signal either.
\<close>

theorem reaper_omits_nonzero_exit_value:
  "reap_children os_bg_exited_1 (s\<lparr>children := [1002]\<rparr>)
     = ([Waitpid 1002 1, Printf (''process 1002 completed'' @ [nl])],
        s\<lparr>children := [- 5], childExitMethod := 256\<rparr>)"
proof -
  have "show_int 1002 = ''1002''"
    by code_simp
  then show ?thesis
    by (simp add: reap_children_def reap_child_def do_waitpid_def os_bg_exited_1_def
        WNOHANG_def c_bool_def WIFEXITED_def WIFSIGNALED_def WTERMSIG_def signed_char_def)
qed

subsection \<open>The background flag\<close>

text \<open>One round of the tokenising loop, for each kind of token.\<close>

lemma tokenize_loop_lt:
  "length f < 25 \<Longrightarrow>
     tokenize_loop fg (''<'' # f # ts) c = tokenize_loop fg ts (c\<lparr>input_file := f\<rparr>)"
  by (simp add: store_def)

lemma tokenize_loop_gt:
  "length f < 25 \<Longrightarrow>
     tokenize_loop fg (''>'' # f # ts) c = tokenize_loop fg ts (c\<lparr>output_file := f\<rparr>)"
  by (simp add: store_def)

lemma tokenize_loop_amp:
  "tokenize_loop fg (''&'' # ts) c
     = tokenize_loop fg ts
         (if fg = 0 \<and> command c \<noteq> ''echo'' then c\<lparr>run_in_background := True\<rparr> else c)"
  by simp

lemma tokenize_loop_arg:
  "token \<noteq> ''<'' \<Longrightarrow> token \<noteq> ''>'' \<Longrightarrow> token \<noteq> ''&'' \<Longrightarrow>
   length (args c) < 513 \<Longrightarrow> length token < 20 \<Longrightarrow>
     tokenize_loop fg (token # ts) c = tokenize_loop fg ts (c\<lparr>args := args c @ [token]\<rparr>)"
  by (simp add: store_def)

lemma tokenize_loop_Cons_Inr:
  assumes "tokenize_loop fg (token # rest) c = Inr c'"
  shows "(token = ''<'' \<and> (\<exists>f ts. rest = f # ts \<and> length f < 25
              \<and> tokenize_loop fg ts (c\<lparr>input_file := f\<rparr>) = Inr c'))
       \<or> (token = ''>'' \<and> (\<exists>f ts. rest = f # ts \<and> length f < 25
              \<and> tokenize_loop fg ts (c\<lparr>output_file := f\<rparr>) = Inr c'))
       \<or> (token = ''&''
              \<and> tokenize_loop fg rest
                   (if fg = 0 \<and> command c \<noteq> ''echo'' then c\<lparr>run_in_background := True\<rparr>
                    else c) = Inr c')
       \<or> (token \<noteq> ''<'' \<and> token \<noteq> ''>'' \<and> token \<noteq> ''&''
              \<and> length (args c) < 513 \<and> length token < 20
              \<and> tokenize_loop fg rest (c\<lparr>args := args c @ [token]\<rparr>) = Inr c')"
proof -
  consider (lt) "token = ''<''" | (gt) "token = ''>''" | (amp) "token = ''&''"
    | (arg) "token \<noteq> ''<''" "token \<noteq> ''>''" "token \<noteq> ''&''"
    by blast
  then show ?thesis
  proof cases
    case lt
    with assms show ?thesis
      by (cases rest) (simp_all add: store_def split: if_splits)
  next
    case gt
    with assms show ?thesis
      by (cases rest) (simp_all add: store_def split: if_splits)
  next
    case amp
    with assms show ?thesis by simp
  next
    case arg
    with assms show ?thesis
      by (simp add: store_def split: if_splits)
  qed
qed

declare tokenize_loop.simps(2) [simp del]

lemma tokenize_loop_command:
  "tokenize_loop fg toks c = Inr c' \<Longrightarrow> command c' = command c"
proof (induction toks arbitrary: c rule: length_induct)
  case (1 toks)
  show ?case
  proof (cases toks)
    case Nil
    with "1.prems" show ?thesis by simp
  next
    case (Cons token rest)
    from "1.prems" [unfolded Cons, THEN tokenize_loop_Cons_Inr]
    consider (lt) f ts where "rest = f # ts" "tokenize_loop fg ts (c\<lparr>input_file := f\<rparr>) = Inr c'"
      | (gt) f ts where "rest = f # ts" "tokenize_loop fg ts (c\<lparr>output_file := f\<rparr>) = Inr c'"
      | (amp) "tokenize_loop fg rest
                 (if fg = 0 \<and> command c \<noteq> ''echo'' then c\<lparr>run_in_background := True\<rparr>
                  else c) = Inr c'"
      | (arg) "tokenize_loop fg rest (c\<lparr>args := args c @ [token]\<rparr>) = Inr c'"
      by blast
    then show ?thesis
    proof cases
      case lt
      have "length ts < length toks" using Cons lt(1) by simp
      with "1.IH" lt(2) have "command c' = command (c\<lparr>input_file := f\<rparr>)" by blast
      then show ?thesis by simp
    next
      case gt
      have "length ts < length toks" using Cons gt(1) by simp
      with "1.IH" gt(2) have "command c' = command (c\<lparr>output_file := f\<rparr>)" by blast
      then show ?thesis by simp
    next
      case amp
      have "length rest < length toks" using Cons by simp
      with "1.IH" amp have "command c' = command
         (if fg = 0 \<and> command c \<noteq> ''echo'' then c\<lparr>run_in_background := True\<rparr> else c)"
        by blast
      then show ?thesis by (simp split: if_splits)
    next
      case arg
      have "length rest < length toks" using Cons by simp
      with "1.IH" arg have "command c' = command (c\<lparr>args := args c @ [token]\<rparr>)" by blast
      then show ?thesis by simp
    qed
  qed
qed

lemma tokenize_loop_background:
  "tokenize_loop fg toks c = Inr c' \<Longrightarrow> run_in_background c' \<Longrightarrow>
     run_in_background c \<or> (fg = 0 \<and> command c \<noteq> ''echo'')"
proof (induction toks arbitrary: c rule: length_induct)
  case (1 toks)
  show ?case
  proof (cases toks)
    case Nil
    with "1.prems" show ?thesis by simp
  next
    case (Cons token rest)
    from "1.prems"(1) [unfolded Cons, THEN tokenize_loop_Cons_Inr]
    consider (lt) f ts where "rest = f # ts" "tokenize_loop fg ts (c\<lparr>input_file := f\<rparr>) = Inr c'"
      | (gt) f ts where "rest = f # ts" "tokenize_loop fg ts (c\<lparr>output_file := f\<rparr>) = Inr c'"
      | (amp) "tokenize_loop fg rest
                 (if fg = 0 \<and> command c \<noteq> ''echo'' then c\<lparr>run_in_background := True\<rparr>
                  else c) = Inr c'"
      | (arg) "tokenize_loop fg rest (c\<lparr>args := args c @ [token]\<rparr>) = Inr c'"
      by blast
    then show ?thesis
    proof cases
      case lt
      have "length ts < length toks" using Cons lt(1) by simp
      with "1.IH" lt(2) "1.prems"(2)
      have "run_in_background (c\<lparr>input_file := f\<rparr>)
            \<or> (fg = 0 \<and> command (c\<lparr>input_file := f\<rparr>) \<noteq> ''echo'')" by blast
      then show ?thesis by simp
    next
      case gt
      have "length ts < length toks" using Cons gt(1) by simp
      with "1.IH" gt(2) "1.prems"(2)
      have "run_in_background (c\<lparr>output_file := f\<rparr>)
            \<or> (fg = 0 \<and> command (c\<lparr>output_file := f\<rparr>) \<noteq> ''echo'')" by blast
      then show ?thesis by simp
    next
      case amp
      define c2 where
        "c2 = (if fg = 0 \<and> command c \<noteq> ''echo'' then c\<lparr>run_in_background := True\<rparr> else c)"
      have "length rest < length toks" using Cons by simp
      with "1.IH" amp "1.prems"(2)
      have "run_in_background c2 \<or> (fg = 0 \<and> command c2 \<noteq> ''echo'')"
        unfolding c2_def by blast
      then show ?thesis by (simp add: c2_def split: if_splits)
    next
      case arg
      have "length rest < length toks" using Cons by simp
      with "1.IH" arg "1.prems"(2)
      have "run_in_background (c\<lparr>args := args c @ [token]\<rparr>)
            \<or> (fg = 0 \<and> command (c\<lparr>args := args c @ [token]\<rparr>) \<noteq> ''echo'')" by blast
      then show ?thesis by simp
    qed
  qed
qed

text \<open>A \<open>&\<close> that the loop reaches as the last token sets the flag when it may.\<close>

lemma tokenize_loop_trailing_amp:
  "tokenize_loop fg toks c = Inr c' \<Longrightarrow>
     tokenize_loop fg (toks @ [''&'']) c
       = Inr (if fg = 0 \<and> command c \<noteq> ''echo'' then c'\<lparr>run_in_background := True\<rparr> else c')"
proof (induction toks arbitrary: c rule: length_induct)
  case (1 toks)
  show ?case
  proof (cases toks)
    case Nil
    with "1.prems" show ?thesis by (simp add: tokenize_loop_amp)
  next
    case (Cons token rest)
    from "1.prems" [unfolded Cons, THEN tokenize_loop_Cons_Inr]
    consider (lt) f ts where "token = ''<''" "rest = f # ts" "length f < 25"
        "tokenize_loop fg ts (c\<lparr>input_file := f\<rparr>) = Inr c'"
      | (gt) f ts where "token = ''>''" "rest = f # ts" "length f < 25"
        "tokenize_loop fg ts (c\<lparr>output_file := f\<rparr>) = Inr c'"
      | (amp) "token = ''&''" "tokenize_loop fg rest
                 (if fg = 0 \<and> command c \<noteq> ''echo'' then c\<lparr>run_in_background := True\<rparr>
                  else c) = Inr c'"
      | (arg) "token \<noteq> ''<''" "token \<noteq> ''>''" "token \<noteq> ''&''"
        "length (args c) < 513" "length token < 20"
        "tokenize_loop fg rest (c\<lparr>args := args c @ [token]\<rparr>) = Inr c'"
      by blast
    then show ?thesis
    proof cases
      case lt
      have "length ts < length toks" using Cons lt(2) by simp
      with "1.IH" lt(4)
      have "tokenize_loop fg (ts @ [''&'']) (c\<lparr>input_file := f\<rparr>)
              = Inr (if fg = 0 \<and> command (c\<lparr>input_file := f\<rparr>) \<noteq> ''echo''
                     then c'\<lparr>run_in_background := True\<rparr> else c')" by blast
      moreover have "tokenize_loop fg (toks @ [''&'']) c
              = tokenize_loop fg (ts @ [''&'']) (c\<lparr>input_file := f\<rparr>)"
        using tokenize_loop_lt [OF lt(3), of fg "ts @ [''&'']" c] by (simp add: Cons lt(1,2))
      ultimately show ?thesis by simp
    next
      case gt
      have "length ts < length toks" using Cons gt(2) by simp
      with "1.IH" gt(4)
      have "tokenize_loop fg (ts @ [''&'']) (c\<lparr>output_file := f\<rparr>)
              = Inr (if fg = 0 \<and> command (c\<lparr>output_file := f\<rparr>) \<noteq> ''echo''
                     then c'\<lparr>run_in_background := True\<rparr> else c')" by blast
      moreover have "tokenize_loop fg (toks @ [''&'']) c
              = tokenize_loop fg (ts @ [''&'']) (c\<lparr>output_file := f\<rparr>)"
        using tokenize_loop_gt [OF gt(3), of fg "ts @ [''&'']" c] by (simp add: Cons gt(1,2))
      ultimately show ?thesis by simp
    next
      case amp
      define c2 where
        "c2 = (if fg = 0 \<and> command c \<noteq> ''echo'' then c\<lparr>run_in_background := True\<rparr> else c)"
      have cmd: "command c2 = command c" by (simp add: c2_def)
      have "length rest < length toks" using Cons by simp
      with "1.IH" amp(2)
      have "tokenize_loop fg (rest @ [''&'']) c2
              = Inr (if fg = 0 \<and> command c2 \<noteq> ''echo''
                     then c'\<lparr>run_in_background := True\<rparr> else c')"
        unfolding c2_def by blast
      moreover have "tokenize_loop fg (toks @ [''&'']) c = tokenize_loop fg (rest @ [''&'']) c2"
        using tokenize_loop_amp [of fg "rest @ [''&'']" c] by (simp add: Cons amp(1) c2_def)
      ultimately show ?thesis by (simp add: cmd)
    next
      case arg
      have "length rest < length toks" using Cons by simp
      with "1.IH" arg(6)
      have "tokenize_loop fg (rest @ [''&'']) (c\<lparr>args := args c @ [token]\<rparr>)
              = Inr (if fg = 0 \<and> command (c\<lparr>args := args c @ [token]\<rparr>) \<noteq> ''echo''
                     then c'\<lparr>run_in_background := True\<rparr> else c')" by blast
      moreover have "tokenize_loop fg (toks @ [''&'']) c
              = tokenize_loop fg (rest @ [''&'']) (c\<lparr>args := args c @ [token]\<rparr>)"
        using tokenize_loop_arg [OF arg(1-5), of fg "rest @ [''&'']"] by (simp add: Cons)
      ultimately show ?thesis by simp
    qed
  qed
qed

text \<open>A line that parses was blank, a comment, or tokenised with its first token as the
  command.\<close>

lemma parse_line_Inr:
  assumes "parse_line fg user_input = Inr c"
  shows "c = empty_cmdline
       \<or> (\<exists>token rest. strtok_all user_input [CHR '' '', nl] = token # rest
              \<and> tokenize_loop fg (token # rest) (empty_cmdline\<lparr>command := token\<rparr>) = Inr c)"
proof (cases "take 1 user_input = [nl]")
  case True
  with assms show ?thesis
    by (simp add: parse_line_def terminate_args_def split: if_splits)
next
  case False
  show ?thesis
  proof (cases "strtok_all user_input [CHR '' '', nl]")
    case Nil
    with assms False show ?thesis
      by (simp add: parse_line_def split: if_splits)
  next
    case (Cons token rest)
    show ?thesis
    proof (cases "take 1 token = ''#''")
      case True
      with assms False Cons show ?thesis
        by (simp add: parse_line_def terminate_args_def split: if_splits)
    next
      case nc: False
      from assms False Cons nc have
        r: "(case store 20 token of Inl u \<Rightarrow> Inl u
            | Inr cmd \<Rightarrow>
                (case tokenize_loop fg (token # rest) (empty_cmdline\<lparr>command := cmd\<rparr>) of
                   Inl u \<Rightarrow> Inl u | Inr c \<Rightarrow> terminate_args c)) = Inr c"
        by (simp add: parse_line_def split: if_splits)
      then have st: "store 20 token = Inr token"
        by (simp add: store_def split: if_splits)
      with r obtain c1 where
        l: "tokenize_loop fg (token # rest) (empty_cmdline\<lparr>command := token\<rparr>) = Inr c1"
        and e: "terminate_args c1 = Inr c"
        by (cases "tokenize_loop fg (token # rest) (empty_cmdline\<lparr>command := token\<rparr>)") simp_all
      from e have "c1 = c"
        by (simp add: terminate_args_def split: if_splits)
      with l Cons show ?thesis by blast
    qed
  qed
qed

lemma parse_line_command:
  assumes "parse_line fg user_input = Inr c" and "command c \<noteq> []"
  shows "\<exists>rest. strtok_all user_input [CHR '' '', nl] = command c # rest
           \<and> tokenize_loop fg (command c # rest) (empty_cmdline\<lparr>command := command c\<rparr>) = Inr c"
proof -
  from parse_line_Inr [OF assms(1)] assms(2) obtain token rest where
    t: "strtok_all user_input [CHR '' '', nl] = token # rest"
    and l: "tokenize_loop fg (token # rest) (empty_cmdline\<lparr>command := token\<rparr>) = Inr c"
    by (auto simp: empty_cmdline_def)
  from tokenize_loop_command [OF l] have "command c = token" by simp
  with t l show ?thesis by simp
qed

lemma parse_line_foreground_only:
  assumes "parse_line fg user_input = Inr c" and "fg \<noteq> 0"
  shows "\<not> run_in_background c"
proof
  assume bg: "run_in_background c"
  from parse_line_Inr [OF assms(1)] show False
  proof
    assume "c = empty_cmdline"
    with bg show False by (simp add: empty_cmdline_def)
  next
    assume "\<exists>token rest. strtok_all user_input [CHR '' '', nl] = token # rest
              \<and> tokenize_loop fg (token # rest) (empty_cmdline\<lparr>command := token\<rparr>) = Inr c"
    then obtain token rest where
      "tokenize_loop fg (token # rest) (empty_cmdline\<lparr>command := token\<rparr>) = Inr c" by blast
    from tokenize_loop_background [OF this bg] assms(2) show False
      by (simp add: empty_cmdline_def)
  qed
qed

lemma parse_line_trailing_amp:
  assumes "parse_line fg user_input = Inr c" and "command c \<noteq> []"
    and "strtok_all user_input [CHR '' '', nl] = toks @ [''&'']"
    and "tokenize_loop fg toks (empty_cmdline\<lparr>command := command c\<rparr>) = Inr c'"
  shows "run_in_background c \<longleftrightarrow> fg = 0 \<and> command c \<noteq> ''echo''"
proof -
  from parse_line_command [OF assms(1,2)] assms(3) have
    "tokenize_loop fg (toks @ [''&'']) (empty_cmdline\<lparr>command := command c\<rparr>) = Inr c"
    by auto
  with tokenize_loop_trailing_amp [OF assms(4)] have
    c: "c = (if fg = 0 \<and> command c \<noteq> ''echo'' then c'\<lparr>run_in_background := True\<rparr> else c')"
    by simp
  show ?thesis
  proof (cases "fg = 0 \<and> command c \<noteq> ''echo''")
    case True
    with c have "c = c'\<lparr>run_in_background := True\<rparr>" by simp
    then have "run_in_background c = run_in_background (c'\<lparr>run_in_background := True\<rparr>)"
      by (rule arg_cong)
    with True show ?thesis by simp
  next
    case False
    with c have "c = c'" by simp
    with tokenize_loop_background [OF assms(4)] False show ?thesis
      by (auto simp: empty_cmdline_def)
  qed
qed

text \<open>Nothing but the background launch prints \<open>background pid is ...\<close>.\<close>

lemma other_message_quiet:
  "c \<noteq> CHR ''b'' \<Longrightarrow> \<not> reports_background_pid (Printf (c # m))"
  by (simp add: reports_background_pid_def)

lemma other_event_quiet:
  "\<not> reports_background_pid (Perror m)"
  "\<not> reports_background_pid (Write m)"
  "\<not> reports_background_pid Fork"
  "\<not> reports_background_pid (Kill p sig)"
  "\<not> reports_background_pid (Waitpid p opts)"
  "\<not> reports_background_pid Chdir_HOME"
  "\<not> reports_background_pid (Chdir d)"
  by (simp_all add: reports_background_pid_def)

lemma exit_loop_quiet: "\<forall>e\<in>set (exit_loop os cs s). \<not> reports_background_pid e"
  by (induction os cs s rule: exit_loop.induct) (simp_all add: other_event_quiet)

lemma reap_child_quiet:
  assumes "\<forall>e\<in>set (fst acc). \<not> reports_background_pid e"
  shows "\<forall>e\<in>set (fst (reap_child os i acc)). \<not> reports_background_pid e"
proof (cases acc)
  case (fields evs temp s)
  with assms have "\<forall>e\<in>set evs. \<not> reports_background_pid e" by simp
  then show ?thesis
    unfolding fields reap_child_def Let_def
    by (simp add: other_message_quiet other_event_quiet)
qed

lemma fold_reap_child_quiet:
  "\<forall>e\<in>set (fst acc). \<not> reports_background_pid e \<Longrightarrow>
     \<forall>e\<in>set (fst (fold (reap_child os) idxs acc)). \<not> reports_background_pid e"
proof (induction idxs arbitrary: acc)
  case Nil
  then show ?case by simp
next
  case (Cons i idxs)
  from Cons.prems have "\<forall>e\<in>set (fst (reap_child os i acc)). \<not> reports_background_pid e"
    by (rule reap_child_quiet)
  then show ?case using Cons.IH by simp
qed

lemma reap_children_quiet:
  "\<forall>e\<in>set (fst (reap_children os s)). \<not> reports_background_pid e"
proof -
  have "\<forall>e\<in>set (fst (fold (reap_child os) [0 ..< length (children s)] ([], 0, s))).
          \<not> reports_background_pid e"
    by (rule fold_reap_child_quiet) simp
  then show ?thesis
    by (simp add: reap_children_def split: prod.splits)
qed

lemma launch_foreground_quiet:
  "\<forall>e\<in>set (fst (launch_foreground os n c s)). \<not> reports_background_pid e"
  by (simp add: launch_foreground_def Let_def other_message_quiet other_event_quiet)

lemma status_builtin_quiet:
  "\<forall>e\<in>set (fst (status_builtin s)). \<not> reports_background_pid e"
  by (simp add: status_builtin_def Let_def other_message_quiet)

lemma cd_builtin_quiet:
  "\<forall>e\<in>set (fst (cd_builtin c s)). \<not> reports_background_pid e"
  by (simp add: cd_builtin_def other_event_quiet)

lemma dispatch_foreground_quiet:
  assumes "\<not> run_in_background c" and "dispatch os c s = Inr (evs, k)"
  shows "\<forall>e\<in>set evs. \<not> reports_background_pid e"
proof -
  from assms have "evs = fst (exit_builtin os s) \<or> evs = fst (cd_builtin c s)
      \<or> evs = fst (status_builtin s) \<or> evs = fst (launch_foreground os 0 c s)"
    by (auto simp: dispatch_def split: if_splits)
  with exit_loop_quiet [of os "children s" s] cd_builtin_quiet [of c s]
    status_builtin_quiet [of s] launch_foreground_quiet [of os 0 c s]
  show ?thesis by (auto simp: exit_builtin_def)
qed

text \<open>The stages a completed round went through.\<close>

lemma loop_body_Inr:
  assumes "loop_body os s user_input = Inr (evs, k)"
  shows "\<exists>c0 as evs1 k1.
           parse_line (fg_only_mode s) user_input = Inr c0
         \<and> expand_args (os_getpid os) (args c0) = Inr as
         \<and> dispatch os (c0\<lparr>args := as\<rparr>) s = Inr (evs1, k1)
         \<and> (evs = Printf '': '' # evs1
              \<or> (\<exists>s1. k1 = Continue s1 \<and> evs = Printf '': '' # evs1 @ fst (reap_children os s1)))"
proof (cases "parse_line (fg_only_mode s) user_input")
  case (Inl u)
  with assms show ?thesis by (simp add: loop_body_def)
next
  case p: (Inr c0)
  show ?thesis
  proof (cases "expand_args (os_getpid os) (args c0)")
    case (Inl u)
    with assms p show ?thesis by (simp add: loop_body_def)
  next
    case x: (Inr as)
    show ?thesis
    proof (cases "dispatch os (c0\<lparr>args := as\<rparr>) s")
      case (Inl u)
      with assms p x show ?thesis by (simp add: loop_body_def)
    next
      case (Inr r)
      obtain evs1 k1 where r: "r = (evs1, k1)" by (cases r)
      have "evs = Printf '': '' # evs1
          \<or> (\<exists>s1. k1 = Continue s1 \<and> evs = Printf '': '' # evs1 @ fst (reap_children os s1))"
      proof (cases k1)
        case (Continue s1)
        with assms p x Inr r have "evs = Printf '': '' # evs1 @ fst (reap_children os s1)"
          by (simp add: loop_body_def split: prod.splits)
        with Continue show ?thesis by blast
      next
        case (Exit n)
        with assms p x Inr r show ?thesis by (simp add: loop_body_def)
      next
        case Abort
        with assms p x Inr r show ?thesis by (simp add: loop_body_def)
      next
        case (In_child ch)
        with assms p x Inr r show ?thesis by (simp add: loop_body_def)
      qed
      with p x Inr r show ?thesis by blast
    qed
  qed
qed

lemma loop_body_foreground_only_quiet:
  assumes "fg_only_mode s \<noteq> 0" and "loop_body os s user_input = Inr (evs, k)"
  shows "\<forall>e\<in>set evs. \<not> reports_background_pid e"
proof -
  from loop_body_Inr [OF assms(2)] obtain c0 as evs1 k1 where
    p: "parse_line (fg_only_mode s) user_input = Inr c0"
    and d: "dispatch os (c0\<lparr>args := as\<rparr>) s = Inr (evs1, k1)"
    and r: "evs = Printf '': '' # evs1
            \<or> (\<exists>s1. k1 = Continue s1 \<and> evs = Printf '': '' # evs1 @ fst (reap_children os s1))"
    by blast
  from parse_line_foreground_only [OF p assms(1)]
  have "\<not> run_in_background (c0\<lparr>args := as\<rparr>)" by simp
  from dispatch_foreground_quiet [OF this d]
  have q: "\<forall>e\<in>set evs1. \<not> reports_background_pid e" .
  from r show ?thesis
  proof
    assume "evs = Printf '': '' # evs1"
    with q show ?thesis by (simp add: other_message_quiet)
  next
    assume "\<exists>s1. k1 = Continue s1 \<and> evs = Printf '': '' # evs1 @ fst (reap_children os s1)"
    then obtain s1 where "evs = Printf '': '' # evs1 @ fst (reap_children os s1)" by blast
    with q reap_children_quiet [of os s1] show ?thesis
      by (auto simp: other_message_quiet)
  qed
qed

lemma loop_body_foreground_waits:
  assumes "loop_body os s user_input = Inr (evs, k)"
    and "parse_line (fg_only_mode s) user_input = Inr c"
    and "\<not> run_in_background c"
    and "command c \<noteq> ''exit''" and "command c \<noteq> ''cd''" and "command c \<noteq> ''status''"
    and "os_fork os \<noteq> 0" and "os_fork os \<noteq> - 1"
  shows "Fork \<in> set evs \<and> Waitpid (os_fork os) 0 \<in> set evs"
proof -
  from loop_body_Inr [OF assms(1)] assms(2) obtain as evs1 k1 where
    d: "dispatch os (c\<lparr>args := as\<rparr>) s = Inr (evs1, k1)"
    and r: "evs = Printf '': '' # evs1
            \<or> (\<exists>s1. k1 = Continue s1 \<and> evs = Printf '': '' # evs1 @ fst (reap_children os s1))"
    by auto
  from d assms(3-6) have l: "launch_foreground os 0 (c\<lparr>args := as\<rparr>) s = (evs1, k1)"
    by (simp add: dispatch_def)
  have "\<exists>rest. evs1 = Fork # Waitpid (os_fork os) 0 # rest"
    using l assms(7,8)
    by (auto simp: launch_foreground_def Let_def split: if_splits)
  with r show ?thesis by auto
qed

text \<open>Only the terminal-stop handler writes \<open>fg_only_mode\<close>: the built-ins, the launches and the
  reaping loop leave it as it is.\<close>

lemma do_waitpid_mode:
  "fg_only_mode (snd (do_waitpid os pid options s)) = fg_only_mode s"
  by (simp add: do_waitpid_def split: wait_answer.splits)

lemma dispatch_mode:
  assumes "dispatch os c s = Inr (evs, Continue s')"
  shows "fg_only_mode s' = fg_only_mode s"
proof -
  consider (ex) "command c = ''exit''"
    | (cd) "command c \<noteq> ''exit''" "command c = ''cd''"
    | (st) "command c \<noteq> ''exit''" "command c \<noteq> ''cd''" "command c = ''status''"
    | (fg) "command c \<noteq> ''exit''" "command c \<noteq> ''cd''" "command c \<noteq> ''status''"
        "\<not> run_in_background c"
    | (bg) "command c \<noteq> ''exit''" "command c \<noteq> ''cd''" "command c \<noteq> ''status''"
        "run_in_background c"
    by blast
  then show ?thesis
  proof cases
    case ex
    with assms show ?thesis by (simp add: dispatch_def exit_builtin_def)
  next
    case cd
    with assms show ?thesis
      by (simp add: dispatch_def cd_builtin_def split: if_splits)
  next
    case st
    with assms show ?thesis
      by (auto simp: dispatch_def status_builtin_def Let_def split: if_splits)
  next
    case fg
    with assms have "launch_foreground os 0 c s = (evs, Continue s')"
      by (simp add: dispatch_def)
    then show ?thesis
      using do_waitpid_mode [of os "os_fork os" 0 "s\<lparr>spawnpid := os_fork os\<rparr>"]
      by (auto simp: launch_foreground_def Let_def split: if_splits)
  next
    case bg
    with assms have "launch_background os 0 c s = Inr (evs, Continue s')"
      by (simp add: dispatch_def)
    then show ?thesis
      by (auto simp: launch_background_def Let_def split: if_splits)
  qed
qed

lemma reap_child_mode:
  "fg_only_mode (snd (snd (reap_child os i acc))) = fg_only_mode (snd (snd acc))"
proof (cases acc)
  case (fields evs temp s)
  show ?thesis
    unfolding fields reap_child_def Let_def
    using do_waitpid_mode [of os "children s ! i" WNOHANG s]
    by simp
qed

lemma fold_reap_child_mode:
  "fg_only_mode (snd (snd (fold (reap_child os) idxs acc))) = fg_only_mode (snd (snd acc))"
proof (induction idxs arbitrary: acc)
  case Nil
  show ?case by simp
next
  case (Cons i idxs)
  show ?case using Cons.IH [of "reap_child os i acc"] reap_child_mode [of os i acc] by simp
qed

lemma reap_children_mode:
  "fg_only_mode (snd (reap_children os s)) = fg_only_mode s"
  using fold_reap_child_mode [of os "[0 ..< length (children s)]" "([], 0, s)"]
  by (auto simp: reap_children_def split: prod.splits)

lemma loop_body_Continue:
  assumes "loop_body os s user_input = Inr (evs, Continue s')"
  shows "\<exists>c as evs1 s1. dispatch os (c\<lparr>args := as\<rparr>) s = Inr (evs1, Continue s1)
           \<and> s' = snd (reap_children os s1)"
proof -
  from loop_body_Inr [OF assms] obtain c0 as evs1 k1 where
    p: "parse_line (fg_only_mode s) user_input = Inr c0"
    and x: "expand_args (os_getpid os) (args c0) = Inr as"
    and d: "dispatch os (c0\<lparr>args := as\<rparr>) s = Inr (evs1, k1)"
    by blast
  show ?thesis
  proof (cases k1)
    case (Continue s1)
    with assms p x d have "s' = snd (reap_children os s1)"
      by (simp add: loop_body_def split: prod.splits)
    with d Continue show ?thesis by blast
  next
    case (Exit n)
    with assms p x d show ?thesis by (simp add: loop_body_def)
  next
    case Abort
    with assms p x d show ?thesis by (simp add: loop_body_def)
  next
    case (In_child ch)
    with assms p x d show ?thesis by (simp add: loop_body_def)
  qed
qed

lemma loop_body_mode:
  assumes "loop_body os s user_input = Inr (evs, Continue s')"
  shows "fg_only_mode s' = fg_only_mode s"
proof -
  from loop_body_Continue [OF assms] obtain c as evs1 s1 where
    d: "dispatch os (c\<lparr>args := as\<rparr>) s = Inr (evs1, Continue s1)"
    and r: "s' = snd (reap_children os s1)"
    by blast
  from dispatch_mode [OF d] reap_children_mode [of os s1] r show ?thesis
    by simp
qed

lemma catchSIGINT_mode: "fg_only_mode (snd (catchSIGINT s)) = fg_only_mode s"
  by (simp add: catchSIGINT_def)

lemma catchSIGINT_quiet: "\<forall>e\<in>set (fst (catchSIGINT s)). \<not> reports_background_pid e"
  by (simp add: catchSIGINT_def other_event_quiet)

text \<open>A run, one input at a time.\<close>

lemma run_shell_Line:
  assumes "run_shell (Line os user_input # rest) s = Inr (evs, k)"
  shows "\<exists>evs1 k1. loop_body os s user_input = Inr (evs1, k1)
           \<and> ((\<exists>s1 evs2. k1 = Continue s1 \<and> run_shell rest s1 = Inr (evs2, k)
                   \<and> evs = evs1 @ evs2)
               \<or> ((\<forall>s1. k1 \<noteq> Continue s1) \<and> evs = evs1 \<and> k = k1))"
proof (cases "loop_body os s user_input")
  case (Inl u)
  with assms show ?thesis by simp
next
  case (Inr r)
  obtain evs1 k1 where r: "r = (evs1, k1)" by (cases r)
  show ?thesis
  proof (cases k1)
    case (Continue s1)
    show ?thesis
    proof (cases "run_shell rest s1")
      case (Inl u)
      with assms Inr r Continue show ?thesis by simp
    next
      case rest: (Inr r2)
      obtain evs2 k2 where r2: "r2 = (evs2, k2)" by (cases r2)
      from assms Inr r Continue rest r2 have "evs = evs1 @ evs2" and "k = k2"
        by simp_all
      with Inr r Continue rest r2 show ?thesis by blast
    qed
  next
    case (Exit n)
    with assms Inr r have "evs = evs1" and "k = k1" by simp_all
    with Inr r Exit show ?thesis by blast
  next
    case Abort
    with assms Inr r have "evs = evs1" and "k = k1" by simp_all
    with Inr r Abort show ?thesis by blast
  next
    case (In_child ch)
    with assms Inr r have "evs = evs1" and "k = k1" by simp_all
    with Inr r In_child show ?thesis by blast
  qed
qed

lemma run_shell_SIGINT:
  assumes "run_shell (SIGINT # rest) s = Inr (evs, k)"
  shows "\<exists>evs2. run_shell rest (snd (catchSIGINT s)) = Inr (evs2, k)
           \<and> evs = fst (catchSIGINT s) @ evs2"
proof (cases "run_shell rest s")
  case (Inl u)
  with assms show ?thesis by (simp add: catchSIGINT_def)
next
  case (Inr r2)
  obtain evs2 k2 where r2: "r2 = (evs2, k2)" by (cases r2)
  with assms Inr show ?thesis by (simp add: catchSIGINT_def)
qed

text \<open>A run without a terminal-stop signal keeps the mode, and in foreground-only mode it
  prints no \<open>background pid is ...\<close>.\<close>

lemma run_shell_foreground_only:
  assumes "SIGTSTP \<notin> set inputs" and "run_shell inputs s = Inr (evs, k)"
  shows "(fg_only_mode s \<noteq> 0 \<longrightarrow> (\<forall>e\<in>set evs. \<not> reports_background_pid e))
       \<and> (\<forall>s'. k = Continue s' \<longrightarrow> fg_only_mode s' = fg_only_mode s)"
  using assms
proof (induction inputs arbitrary: s evs k)
  case Nil
  from Nil.prems(2) have "evs = []" and "k = Continue s" by simp_all
  then show ?case by simp
next
  case (Cons i inputs)
  from Cons.prems(1) have nt: "SIGTSTP \<notin> set inputs" and i: "i \<noteq> SIGTSTP"
    by auto
  show ?case
  proof (cases i)
    case (Line os user_input)
    from run_shell_Line [OF Cons.prems(2) [unfolded Line]] obtain evs1 k1 where
      l: "loop_body os s user_input = Inr (evs1, k1)"
      and c: "(\<exists>s1 evs2. k1 = Continue s1 \<and> run_shell inputs s1 = Inr (evs2, k)
                   \<and> evs = evs1 @ evs2)
               \<or> ((\<forall>s1. k1 \<noteq> Continue s1) \<and> evs = evs1 \<and> k = k1)"
      by blast
    have q1: "fg_only_mode s \<noteq> 0 \<Longrightarrow> \<forall>e\<in>set evs1. \<not> reports_background_pid e"
      by (rule loop_body_foreground_only_quiet [OF _ l])
    from c show ?thesis
    proof
      assume "\<exists>s1 evs2. k1 = Continue s1 \<and> run_shell inputs s1 = Inr (evs2, k)
                   \<and> evs = evs1 @ evs2"
      then obtain s1 evs2 where k1: "k1 = Continue s1"
        and rs: "run_shell inputs s1 = Inr (evs2, k)" and e: "evs = evs1 @ evs2"
        by blast
      from l k1 have m1: "fg_only_mode s1 = fg_only_mode s"
        using loop_body_mode [of os s user_input evs1 s1] by simp
      note ih = Cons.IH [OF nt rs]
      show ?thesis
      proof (intro conjI impI allI)
        assume a: "fg_only_mode s \<noteq> 0"
        with m1 ih have "\<forall>e\<in>set evs2. \<not> reports_background_pid e" by simp
        with q1 [OF a] e show "\<forall>e\<in>set evs. \<not> reports_background_pid e" by auto
      next
        fix s' assume "k = Continue s'"
        with ih m1 show "fg_only_mode s' = fg_only_mode s" by simp
      qed
    next
      assume b: "(\<forall>s1. k1 \<noteq> Continue s1) \<and> evs = evs1 \<and> k = k1"
      show ?thesis
      proof (intro conjI impI allI)
        assume a: "fg_only_mode s \<noteq> 0"
        with q1 b show "\<forall>e\<in>set evs. \<not> reports_background_pid e" by simp
      next
        fix s' assume "k = Continue s'"
        with b show "fg_only_mode s' = fg_only_mode s" by blast
      qed
    qed
  next
    case SIGTSTP
    with i show ?thesis by simp
  next
    case SIGINT
    from run_shell_SIGINT [OF Cons.prems(2) [unfolded SIGINT]] obtain evs2 where
      rs: "run_shell inputs (snd (catchSIGINT s)) = Inr (evs2, k)"
      and e: "evs = fst (catchSIGINT s) @ evs2"
      by blast
    note ih = Cons.IH [OF nt rs]
    show ?thesis
    proof (intro conjI impI allI)
      assume a: "fg_only_mode s \<noteq> 0"
      with ih have "\<forall>e\<in>set evs2. \<not> reports_background_pid e"
        by (simp add: catchSIGINT_mode)
      with catchSIGINT_quiet [of s] e show "\<forall>e\<in>set evs. \<not> reports_background_pid e"
        by auto
    next
      fix s' assume "k = Continue s'"
      with ih show "fg_only_mode s' = fg_only_mode s"
        by (simp add: catchSIGINT_mode)
    qed
  qed
qed

text \<open>
  C5, as amended. For every line that parses to a command and whose last token is a \<open>&\<close>
  that the tokenising loop reaches as a token (the tokens before it parse by themselves, so
  the \<open>&\<close> is not taken as the path of a \<open><\<close> or \<open>>\<close> just before it): the command is
  marked for background execution if and only if \<open>fg_only_mode\<close> is 0 and the command name
  is not \<open>echo\<close>. While \<open>fg_only_mode\<close> is not 0 a round prints no \<open>background pid is ...\<close>
  and a command that is not a built-in is forked and waited for with a blocking \<open>waitpid\<close>.
  The terminal-stop handler switches the mode on when it is off and off when it is on, and
  nothing else changes it: a round of the loop and the interrupt handler leave
  \<open>fg_only_mode\<close> as it is, so in a run without a terminal-stop signal the mode at the end
  is the mode at the start, and a run that starts in foreground-only mode prints no
  \<open>background pid is ...\<close> at all.
\<close>

theorem background_only_when_allowed:
  assumes "parse_line (fg_only_mode s) user_input = Inr c" and "command c \<noteq> []"
    and "strtok_all user_input [CHR '' '', nl] = toks @ [''&'']"
    and "tokenize_loop (fg_only_mode s) toks (empty_cmdline\<lparr>command := command c\<rparr>) = Inr c'"
  shows "(run_in_background c \<longleftrightarrow> fg_only_mode s = 0 \<and> command c \<noteq> ''echo'')
       \<and> (fg_only_mode s \<noteq> 0 \<and> loop_body os s user_input = Inr (evs, k) \<longrightarrow>
            (\<forall>e\<in>set evs. \<not> reports_background_pid e)
            \<and> (command c \<noteq> ''exit'' \<and> command c \<noteq> ''cd'' \<and> command c \<noteq> ''status''
                 \<and> os_fork os \<noteq> 0 \<and> os_fork os \<noteq> - 1 \<longrightarrow>
                 Fork \<in> set evs \<and> Waitpid (os_fork os) 0 \<in> set evs))
       \<and> (fg_only_mode (snd (catchSIGTSTP s)) = 0 \<longleftrightarrow> fg_only_mode s \<noteq> 0)
       \<and> (loop_body os' s line = Inr (evs', Continue s') \<longrightarrow> fg_only_mode s' = fg_only_mode s)
       \<and> fg_only_mode (snd (catchSIGINT s)) = fg_only_mode s
       \<and> (SIGTSTP \<notin> set inputs \<and> run_shell inputs s = Inr (trace, end_of_run) \<longrightarrow>
            (fg_only_mode s \<noteq> 0 \<longrightarrow> (\<forall>e\<in>set trace. \<not> reports_background_pid e))
            \<and> (\<forall>s''. end_of_run = Continue s'' \<longrightarrow> fg_only_mode s'' = fg_only_mode s))"
proof (intro conjI impI)
  show "run_in_background c \<longleftrightarrow> fg_only_mode s = 0 \<and> command c \<noteq> ''echo''"
    using assms by (rule parse_line_trailing_amp)
next
  assume "fg_only_mode s \<noteq> 0 \<and> loop_body os s user_input = Inr (evs, k)"
  then show "\<forall>e\<in>set evs. \<not> reports_background_pid e"
    using loop_body_foreground_only_quiet by blast
next
  assume a: "fg_only_mode s \<noteq> 0 \<and> loop_body os s user_input = Inr (evs, k)"
    and b: "command c \<noteq> ''exit'' \<and> command c \<noteq> ''cd'' \<and> command c \<noteq> ''status''
            \<and> os_fork os \<noteq> 0 \<and> os_fork os \<noteq> - 1"
  from a assms(1) have "\<not> run_in_background c"
    using parse_line_foreground_only by blast
  with a b assms(1) have "Fork \<in> set evs \<and> Waitpid (os_fork os) 0 \<in> set evs"
    using loop_body_foreground_waits by blast
  then show "Fork \<in> set evs" and "Waitpid (os_fork os) 0 \<in> set evs" by simp_all
next
  show "fg_only_mode (snd (catchSIGTSTP s)) = 0 \<longleftrightarrow> fg_only_mode s \<noteq> 0"
    by (simp add: catchSIGTSTP_def)
next
  assume "loop_body os' s line = Inr (evs', Continue s')"
  then show "fg_only_mode s' = fg_only_mode s"
    by (rule loop_body_mode)
next
  show "fg_only_mode (snd (catchSIGINT s)) = fg_only_mode s"
    by (rule catchSIGINT_mode)
next
  assume r: "SIGTSTP \<notin> set inputs \<and> run_shell inputs s = Inr (trace, end_of_run)"
  then have n: "SIGTSTP \<notin> set inputs" and t: "run_shell inputs s = Inr (trace, end_of_run)"
    by simp_all
  assume "fg_only_mode s \<noteq> 0"
  with run_shell_foreground_only [OF n t, THEN conjunct1]
  show "\<forall>e\<in>set trace. \<not> reports_background_pid e" by (rule mp)
next
  assume r: "SIGTSTP \<notin> set inputs \<and> run_shell inputs s = Inr (trace, end_of_run)"
  then have n: "SIGTSTP \<notin> set inputs" and t: "run_shell inputs s = Inr (trace, end_of_run)"
    by simp_all
  show "\<forall>s''. end_of_run = Continue s'' \<longrightarrow> fg_only_mode s'' = fg_only_mode s"
    by (rule run_shell_foreground_only [OF n t, THEN conjunct2])
qed

text \<open>
  The theorem at \<open>sleep 5 &\<close>: after one terminal-stop signal the command is not marked
  and runs in the foreground, also after a \<open>cd\<close> and an interrupt; a second signal puts the
  mode back to 0, where the same line is marked for the background.
\<close>

theorem background_only_when_allowed_witness:
  "parse_line (fg_only_mode stopped_shell) (''sleep 5 &'' @ [nl]) = Inr sleep_cmd
   \<and> command sleep_cmd \<noteq> []
   \<and> strtok_all (''sleep 5 &'' @ [nl]) [CHR '' '', nl] = [''sleep'', ''5''] @ [''&'']
   \<and> tokenize_loop (fg_only_mode stopped_shell) [''sleep'', ''5'']
         (empty_cmdline\<lparr>command := command sleep_cmd\<rparr>) = Inr sleep_cmd
   \<and> fg_only_mode stopped_shell = 1
   \<and> \<not> run_in_background sleep_cmd
   \<and> loop_body os_fg_exits_1 stopped_shell (''sleep 5 &'' @ [nl])
       = Inr ([Printf '': '', Fork, Waitpid 1001 0],
              Continue (stopped_shell\<lparr>spawnpid := 1001, childExitMethod := 256, exit_status := 1\<rparr>))
   \<and> \<not> reports_background_pid (Printf '': '')
   \<and> \<not> reports_background_pid Fork
   \<and> \<not> reports_background_pid (Waitpid 1001 0)
   \<and> fg_only_mode (stopped_shell\<lparr>spawnpid := 1001, childExitMethod := 256, exit_status := 1\<rparr>)
       = fg_only_mode stopped_shell
   \<and> fg_only_mode (snd (catchSIGINT stopped_shell)) = fg_only_mode stopped_shell
   \<and> SIGTSTP \<notin> set [Line os_quiet (''cd'' @ [nl]), SIGINT,
                        Line os_fg_exits_1 (''sleep 5 &'' @ [nl])]
   \<and> run_shell [Line os_quiet (''cd'' @ [nl]), SIGINT,
                 Line os_fg_exits_1 (''sleep 5 &'' @ [nl])] stopped_shell
       = Inr ([Printf '': '', Chdir_HOME, Write (''Caught SIGINT'' @ [nl]),
               Printf '': '', Fork, Waitpid 1001 0],
              Continue (stopped_shell\<lparr>spawnpid := 1001, childExitMethod := 256, exit_status := 1\<rparr>))
   \<and> fg_only_mode (snd (catchSIGTSTP stopped_shell)) = 0
   \<and> parse_line (fg_only_mode (snd (catchSIGTSTP stopped_shell))) (''sleep 5 &'' @ [nl])
       = Inr (sleep_cmd\<lparr>run_in_background := True\<rparr>)"
proof -
  have h1: "parse_line (fg_only_mode stopped_shell) (''sleep 5 &'' @ [nl]) = Inr sleep_cmd"
    by code_simp
  have h2: "command sleep_cmd \<noteq> []"
    by (simp add: sleep_cmd_def)
  have h3: "strtok_all (''sleep 5 &'' @ [nl]) [CHR '' '', nl] = [''sleep'', ''5''] @ [''&'']"
    by code_simp
  have h4: "tokenize_loop (fg_only_mode stopped_shell) [''sleep'', ''5'']
              (empty_cmdline\<lparr>command := command sleep_cmd\<rparr>) = Inr sleep_cmd"
    by code_simp
  have m: "fg_only_mode stopped_shell = 1"
    by (simp add: stopped_shell_def catchSIGTSTP_def initial_shell_def)
  have l: "loop_body os_fg_exits_1 stopped_shell (''sleep 5 &'' @ [nl])
       = Inr ([Printf '': '', Fork, Waitpid 1001 0],
              Continue (stopped_shell\<lparr>spawnpid := 1001, childExitMethod := 256, exit_status := 1\<rparr>))"
    by code_simp
  have n: "SIGTSTP \<notin> set [Line os_quiet (''cd'' @ [nl]), SIGINT,
                        Line os_fg_exits_1 (''sleep 5 &'' @ [nl])]"
    by simp
  have r: "run_shell [Line os_quiet (''cd'' @ [nl]), SIGINT,
                 Line os_fg_exits_1 (''sleep 5 &'' @ [nl])] stopped_shell
       = Inr ([Printf '': '', Chdir_HOME, Write (''Caught SIGINT'' @ [nl]),
               Printf '': '', Fork, Waitpid 1001 0],
              Continue (stopped_shell\<lparr>spawnpid := 1001, childExitMethod := 256, exit_status := 1\<rparr>))"
    by code_simp
  have g: "parse_line (fg_only_mode (snd (catchSIGTSTP stopped_shell))) (''sleep 5 &'' @ [nl])
       = Inr (sleep_cmd\<lparr>run_in_background := True\<rparr>)"
    by code_simp
  have q: "\<not> reports_background_pid (Printf '': '')" "\<not> reports_background_pid Fork"
    "\<not> reports_background_pid (Waitpid 1001 0)"
    by (simp_all add: reports_background_pid_def)
  note t = background_only_when_allowed [OF h1 h2 h3 h4,
        where os = os_fg_exits_1 and evs = "[Printf '': '', Fork, Waitpid 1001 0]"
          and k = "Continue (stopped_shell\<lparr>spawnpid := 1001, childExitMethod := 256, exit_status := 1\<rparr>)"
          and os' = os_fg_exits_1 and line = "''sleep 5 &'' @ [nl]"
          and evs' = "[Printf '': '', Fork, Waitpid 1001 0]"
          and s' = "stopped_shell\<lparr>spawnpid := 1001, childExitMethod := 256, exit_status := 1\<rparr>"
          and inputs = "[Line os_quiet (''cd'' @ [nl]), SIGINT,
                        Line os_fg_exits_1 (''sleep 5 &'' @ [nl])]"
          and trace = "[Printf '': '', Chdir_HOME, Write (''Caught SIGINT'' @ [nl]),
               Printf '': '', Fork, Waitpid 1001 0]"
          and end_of_run = "Continue (stopped_shell\<lparr>spawnpid := 1001, childExitMethod := 256, exit_status := 1\<rparr>)"]
  from t have "run_in_background sleep_cmd
      \<longleftrightarrow> fg_only_mode stopped_shell = 0 \<and> command sleep_cmd \<noteq> ''echo''"
    by (rule conjunct1)
  with m have nb: "\<not> run_in_background sleep_cmd"
    by simp
  from t have "fg_only_mode (snd (catchSIGTSTP stopped_shell)) = 0
      \<longleftrightarrow> fg_only_mode stopped_shell \<noteq> 0"
    by blast
  with m have reversed: "fg_only_mode (snd (catchSIGTSTP stopped_shell)) = 0"
    by simp
  from t l have kept: "fg_only_mode
      (stopped_shell\<lparr>spawnpid := 1001, childExitMethod := 256, exit_status := 1\<rparr>)
      = fg_only_mode stopped_shell"
    by blast
  from t have sigint: "fg_only_mode (snd (catchSIGINT stopped_shell)) = fg_only_mode stopped_shell"
    by blast
  from h1 h2 h3 h4 m nb l q kept sigint n r reversed g show ?thesis
    by blast
qed

text \<open>
  C5 as stated fails where the trailing \<open>&\<close> follows a \<open><\<close>: in \<open>ls < &\<close> the loop copies
  \<open>&\<close> into \<open>input_file\<close> (line 181) and never compares it with \<open>"&"\<close>, so with
  \<open>fg_only_mode\<close> 0 and the command \<open>ls\<close> the flag stays unset.
\<close>

theorem ampersand_taken_as_path:
  "strtok_all (''ls < &'' @ [nl]) [CHR '' '', nl] = [''ls'', ''<''] @ [''&'']
   \<and> parse_line 0 (''ls < &'' @ [nl])
       = Inr \<lparr>command = ''ls'', args = [''ls''], input_file = ''&'', output_file = [],
               run_in_background = False\<rparr>"
  by code_simp

subsection \<open>Expanding \<open>$$\<close>\<close>

text \<open>The loop of lines 208-220 treats every argument by itself.\<close>

lemma expand_args_each:
  "expand_args pid as = Inr bs \<Longrightarrow>
     length bs = length as \<and> (\<forall>i<length as. expand_arg pid (as ! i) = Inr (bs ! i))"
proof (induction as arbitrary: bs)
  case Nil
  then show ?case by simp
next
  case (Cons a as)
  from Cons.prems obtain b bs' where
    a: "expand_arg pid a = Inr b" and r: "expand_args pid as = Inr bs'" and bs: "bs = b # bs'"
    by (auto split: sum.splits)
  from Cons.IH [OF r] have
    ih: "length bs' = length as" "\<forall>i<length as. expand_arg pid (as ! i) = Inr (bs' ! i)"
    by simp_all
  show ?case
  proof (intro conjI allI impI)
    show "length bs = length (a # as)" using ih(1) bs by simp
  next
    fix i assume "i < length (a # as)"
    then show "expand_arg pid ((a # as) ! i) = Inr (bs ! i)"
      using a ih(2) bs by (cases i) simp_all
  qed
qed

lemma strstr_middle: "strstr (xs @ needle @ ys) needle"
proof (induction xs)
  case Nil
  show ?case
  proof (cases "needle @ ys")
    case Nil
    then show ?thesis by simp
  next
    case (Cons a list)
    have "take (length needle) (a # list) = needle"
      using Cons [symmetric] by simp
    then show ?thesis using Cons by simp
  qed
next
  case (Cons x xs)
  then show ?case by simp
qed

text \<open>
  Where the text before a final \<open>$$\<close> holds no \<open>$\<close> and, followed by the decimal pid, fits
  the argument's 20 bytes, the expander yields that text followed by the pid: \<open>$$\<close> becomes
  the pid and \<open>foo$$\<close> becomes \<open>foo<pid>\<close>.
\<close>

lemma expand_whole_and_suffix:
  assumes "CHR ''$'' \<notin> set p" and "length p + length (show_int pid) < 20"
  shows "expand_arg pid (p @ ''$$'') = Inr (p @ show_int pid)"
proof (cases p)
  case Nil
  with assms show ?thesis
    by (simp add: expand_arg_def store_def)
next
  case (Cons a as)
  with assms have a: "a \<noteq> CHR ''$''"
    by auto
  have found: "strstr (p @ ''$$'') ''$$''"
    using strstr_middle [of p "''$$''" "[]"] by simp
  have not_whole: "p @ ''$$'' \<noteq> ''$$''"
    using Cons by simp
  have skipped: "dropWhile (\<lambda>c. c = CHR ''$'') (p @ ''$$'') = p @ ''$$''"
    using Cons a by simp
  have run: "takeWhile (\<lambda>c. c \<noteq> CHR ''$'') (p @ ''$$'') = p"
  proof -
    have "\<forall>x\<in>set p. x \<noteq> CHR ''$''"
      using assms(1) by auto
    then show ?thesis by simp
  qed
  have "strtok (p @ ''$$'') ''$$'' = Some (p, drop 1 (dropWhile (\<lambda>c. c \<noteq> CHR ''$'') (p @ ''$$'')))"
    using skipped run Cons by (simp add: strtok_def Let_def)
  with found not_whole assms(2) show ?thesis
    by (simp add: expand_arg_def store_def)
qed

text \<open>The lemma at \<open>foo$$\<close> and at \<open>$$\<close>, for the pid 1000.\<close>

lemma expand_whole_and_suffix_example:
  "CHR ''$'' \<notin> set ''foo'' \<and> length ''foo'' + length (show_int 1000) < 20
   \<and> expand_arg 1000 (''foo'' @ ''$$'') = Inr ''foo1000''
   \<and> CHR ''$'' \<notin> set [] \<and> length ([] :: string) + length (show_int 1000) < 20
   \<and> expand_arg 1000 ([] @ ''$$'') = Inr ''1000''"
proof -
  have d: "show_int 1000 = ''1000''" by code_simp
  have h1: "CHR ''$'' \<notin> set ''foo''" by simp
  have h2: "length ''foo'' + length (show_int 1000) < 20" by (simp add: d)
  have k1: "CHR ''$'' \<notin> set []" by simp
  have k2: "length ([] :: string) + length (show_int 1000) < 20" by (simp add: d)
  show ?thesis
    using expand_whole_and_suffix [OF h1 h2] expand_whole_and_suffix [OF k1 k2] h1 h2 k2
    by (simp add: d)
qed

text \<open>
  C8. The claim: an argument that is exactly \<open>$$\<close> becomes the pid, and an argument ending
  in \<open>$$\<close> becomes its prefix followed by the pid. For \<open>a$b$$\<close>, which ends in \<open>$$\<close>, the
  call \<open>strtok(args[i], "$$")\<close> of line 216 takes \<open>"$$"\<close> as the set of delimiters \<open>{$}\<close> and cuts
  the argument at its first \<open>$\<close>: the result is \<open>a1000\<close>, not \<open>a$b1000\<close>, and \<open>echo a$b$$\<close>
  runs \<open>echo\<close> with the argument \<open>a1000\<close>. The comments of lines 206 and 214-215 say every
  \<open>$$\<close> is replaced and that the code works when \<open>$$\<close> is appended to the end.
\<close>

theorem suffix_after_inner_dollar:
  "expand_arg 1000 (''a$b'' @ ''$$'') = Inr ''a1000''
   \<and> expand_arg 1000 (''a$b'' @ ''$$'') \<noteq> Inr (''a$b'' @ show_int 1000)
   \<and> loop_body (os_quiet\<lparr>os_fork := 0\<rparr>) (initial_shell 1000) (''echo a$b$$'' @ [nl])
       = Inr ([Printf '': '', Fork],
              In_child \<lparr>child_stdin = None, child_stdout = None, exec_file = Some ''echo'',
                        exec_argv = [''echo'', ''a1000'']\<rparr>)"
  by code_simp

text \<open>
  C10, as amended. For every argument that contains \<open>$$\<close>, is not exactly \<open>$$\<close>, has a
  character other than \<open>$\<close>, and whose result fits the argument's 20 bytes: the expander
  rewrites it to its first run of characters other than \<open>$\<close>, followed by the pid, and drops
  the rest. For an argument that does not begin with \<open>$\<close> that run is the text before the
  first \<open>$\<close> (\<open>a$$b\<close> becomes \<open>a<pid>\<close>); leading \<open>$\<close> characters are skipped first
  (\<open>$a$$b\<close> becomes \<open>a<pid>\<close> too).
\<close>

theorem expand_first_run:
  assumes "strstr arg ''$$''" and "arg \<noteq> ''$$''"
    and "dropWhile (\<lambda>c. c = CHR ''$'') arg \<noteq> []"
    and "length (takeWhile (\<lambda>c. c \<noteq> CHR ''$'') (dropWhile (\<lambda>c. c = CHR ''$'') arg))
           + length (show_int pid) < 20"
  shows "expand_arg pid arg
           = Inr (takeWhile (\<lambda>c. c \<noteq> CHR ''$'') (dropWhile (\<lambda>c. c = CHR ''$'') arg)
                  @ show_int pid)"
proof -
  define rest where "rest = dropWhile (\<lambda>c. c = CHR ''$'') arg"
  have "strtok arg ''$$''
          = Some (takeWhile (\<lambda>c. c \<noteq> CHR ''$'') rest,
                  drop 1 (dropWhile (\<lambda>c. c \<noteq> CHR ''$'') rest))"
    using assms(3) by (simp add: strtok_def Let_def rest_def)
  moreover have "store 20 (takeWhile (\<lambda>c. c \<noteq> CHR ''$'') rest @ show_int pid)
          = Inr (takeWhile (\<lambda>c. c \<noteq> CHR ''$'') rest @ show_int pid)"
    using assms(4) by (simp add: store_def rest_def)
  ultimately show ?thesis
    using assms(1,2) by (simp add: expand_arg_def rest_def)
qed

text \<open>The theorem at \<open>a$$b\<close> and at \<open>$a$$b\<close>, for the pid 1000.\<close>

theorem expand_first_run_witness:
  "strstr ''a$$b'' ''$$'' \<and> ''a$$b'' \<noteq> ''$$''
   \<and> dropWhile (\<lambda>c. c = CHR ''$'') ''a$$b'' \<noteq> []
   \<and> length (takeWhile (\<lambda>c. c \<noteq> CHR ''$'') (dropWhile (\<lambda>c. c = CHR ''$'') ''a$$b''))
         + length (show_int 1000) < 20
   \<and> expand_arg 1000 ''a$$b'' = Inr ''a1000''
   \<and> strstr ''$a$$b'' ''$$'' \<and> ''$a$$b'' \<noteq> ''$$''
   \<and> dropWhile (\<lambda>c. c = CHR ''$'') ''$a$$b'' \<noteq> []
   \<and> length (takeWhile (\<lambda>c. c \<noteq> CHR ''$'') (dropWhile (\<lambda>c. c = CHR ''$'') ''$a$$b''))
         + length (show_int 1000) < 20
   \<and> expand_arg 1000 ''$a$$b'' = Inr ''a1000''"
proof -
  have d: "show_int 1000 = ''1000''" by code_simp
  have h1: "strstr ''a$$b'' ''$$''" by simp
  have h2: "''a$$b'' \<noteq> ''$$''" by simp
  have h3: "dropWhile (\<lambda>c. c = CHR ''$'') ''a$$b'' \<noteq> []" by simp
  have h4: "length (takeWhile (\<lambda>c. c \<noteq> CHR ''$'') (dropWhile (\<lambda>c. c = CHR ''$'') ''a$$b''))
              + length (show_int 1000) < 20" by (simp add: d)
  have k1: "strstr ''$a$$b'' ''$$''" by simp
  have k2: "''$a$$b'' \<noteq> ''$$''" by simp
  have k3: "dropWhile (\<lambda>c. c = CHR ''$'') ''$a$$b'' \<noteq> []" by simp
  have k4: "length (takeWhile (\<lambda>c. c \<noteq> CHR ''$'') (dropWhile (\<lambda>c. c = CHR ''$'') ''$a$$b''))
              + length (show_int 1000) < 20" by (simp add: d)
  have r1: "expand_arg 1000 ''a$$b'' = Inr ''a1000''"
    using expand_first_run [OF h1 h2 h3 h4] by (simp add: d)
  have r2: "expand_arg 1000 ''$a$$b'' = Inr ''a1000''"
    using expand_first_run [OF k1 k2 k3 k4] by (simp add: d)
  from h1 h2 h3 h4 r1 k1 k2 k3 k4 r2 show ?thesis
    by blast
qed

text \<open>
  C10 as stated fails for an argument that begins with \<open>$\<close>: the text before the first
  \<open>$\<close> of \<open>$a$$b\<close> is empty, and the result is \<open>a1000\<close>, not \<open>1000\<close>.
\<close>

theorem interior_after_leading_dollar:
  "expand_arg 1000 ''$a$$b'' \<noteq> Inr (takeWhile (\<lambda>c. c \<noteq> CHR ''$'') ''$a$$b'' @ show_int 1000)"
  by code_simp

subsection \<open>Foreground children killed by a signal\<close>

lemma WIFSIGNALED_not_WIFEXITED: "WIFSIGNALED st \<Longrightarrow> \<not> WIFEXITED st"
  by (auto simp: WIFSIGNALED_def WIFEXITED_def WTERMSIG_def signed_char_def)

text \<open>
  C9. For a command that is not a built-in and not marked for the background, launched by
  a \<open>fork\<close> that succeeded, whose child the blocking \<open>waitpid\<close> collects with a status
  \<open>st\<close> that says killed by a signal: the shell stores \<open>st\<close> in \<open>childExitMethod\<close> and the
  signal number in \<open>term_signal\<close>, and prints \<open>terminated by signal N\<close> if and only if the
  signal is not 11.
\<close>

theorem foreground_signal_recorded:
  assumes "command c \<noteq> ''exit''" and "command c \<noteq> ''cd''" and "command c \<noteq> ''status''"
    and "\<not> run_in_background c"
    and "os_fork os \<noteq> - 1" and "os_fork os \<noteq> 0"
    and "os_waitpid os (os_fork os) 0 = Reaped st" and "WIFSIGNALED st"
  shows "dispatch os c s
           = Inr ([Fork, Waitpid (os_fork os) 0] @
                  (if WTERMSIG st \<noteq> 11
                   then [Printf (''terminated by signal '' @ show_int (WTERMSIG st) @ [nl])]
                   else []),
                  Continue (s\<lparr>spawnpid := os_fork os, childExitMethod := st,
                              term_signal := WTERMSIG st\<rparr>))"
proof -
  have launched: "dispatch os c s = Inr (launch_foreground os 0 c s)"
    using assms(1-4) by (simp add: dispatch_def)
  have waited: "do_waitpid os (os_fork os) 0 (s\<lparr>spawnpid := os_fork os\<rparr>)
                  = (os_fork os, s\<lparr>spawnpid := os_fork os, childExitMethod := st\<rparr>)"
    using assms(7) by (simp add: do_waitpid_def)
  have not_exited: "\<not> WIFEXITED st"
    using assms(8) by (rule WIFSIGNALED_not_WIFEXITED)
  have "launch_foreground os 0 c s
          = ([Fork, Waitpid (os_fork os) 0] @
             (if WTERMSIG st \<noteq> 11
              then [Printf (''terminated by signal '' @ show_int (WTERMSIG st) @ [nl])]
              else []),
             Continue (s\<lparr>spawnpid := os_fork os, childExitMethod := st,
                         term_signal := WTERMSIG st\<rparr>))"
    using assms(5,6,8) waited not_exited
    by (simp add: launch_foreground_def Let_def)
  with launched show ?thesis
    by simp
qed

text \<open>The theorem at \<open>sleep 5\<close> killed by signal 2 (message printed) and by signal 11
  (no message).\<close>

theorem foreground_signal_recorded_witness:
  "command sleep_cmd \<noteq> ''exit'' \<and> command sleep_cmd \<noteq> ''cd''
   \<and> command sleep_cmd \<noteq> ''status'' \<and> \<not> run_in_background sleep_cmd
   \<and> os_fork os_child_sigint \<noteq> - 1 \<and> os_fork os_child_sigint \<noteq> 0
   \<and> os_waitpid os_child_sigint (os_fork os_child_sigint) 0 = Reaped 2 \<and> WIFSIGNALED 2
   \<and> dispatch os_child_sigint sleep_cmd (initial_shell 1000)
       = Inr ([Fork, Waitpid 1001 0, Printf (''terminated by signal 2'' @ [nl])],
              Continue ((initial_shell 1000)
                \<lparr>spawnpid := 1001, childExitMethod := 2, term_signal := 2\<rparr>))
   \<and> os_fork os_child_segv \<noteq> - 1 \<and> os_fork os_child_segv \<noteq> 0
   \<and> os_waitpid os_child_segv (os_fork os_child_segv) 0 = Reaped 11 \<and> WIFSIGNALED 11
   \<and> dispatch os_child_segv sleep_cmd (initial_shell 1000)
       = Inr ([Fork, Waitpid 1001 0],
              Continue ((initial_shell 1000)
                \<lparr>spawnpid := 1001, childExitMethod := 11, term_signal := 11\<rparr>))"
proof -
  have c: "command sleep_cmd \<noteq> ''exit''" "command sleep_cmd \<noteq> ''cd''"
    "command sleep_cmd \<noteq> ''status''" "\<not> run_in_background sleep_cmd"
    by (simp_all add: sleep_cmd_def)
  have f2: "os_fork os_child_sigint \<noteq> - 1" "os_fork os_child_sigint \<noteq> 0"
    "os_waitpid os_child_sigint (os_fork os_child_sigint) 0 = Reaped 2"
    by (simp_all add: os_child_sigint_def)
  have f11: "os_fork os_child_segv \<noteq> - 1" "os_fork os_child_segv \<noteq> 0"
    "os_waitpid os_child_segv (os_fork os_child_segv) 0 = Reaped 11"
    by (simp_all add: os_child_segv_def)
  have s2: "WIFSIGNALED 2" and s11: "WIFSIGNALED 11"
    by (simp_all add: WIFSIGNALED_def signed_char_def)
  have t: "WTERMSIG 2 = 2" "WTERMSIG 11 = 11"
    by (simp_all add: WTERMSIG_def)
  have d: "show_int 2 = ''2''"
    by code_simp
  have r2: "dispatch os_child_sigint sleep_cmd (initial_shell 1000)
       = Inr ([Fork, Waitpid 1001 0, Printf (''terminated by signal 2'' @ [nl])],
              Continue ((initial_shell 1000)
                \<lparr>spawnpid := 1001, childExitMethod := 2, term_signal := 2\<rparr>))"
    using foreground_signal_recorded [OF c f2 s2, of "initial_shell 1000"]
    by (simp add: t d os_child_sigint_def)
  have r11: "dispatch os_child_segv sleep_cmd (initial_shell 1000)
       = Inr ([Fork, Waitpid 1001 0],
              Continue ((initial_shell 1000)
                \<lparr>spawnpid := 1001, childExitMethod := 11, term_signal := 11\<rparr>))"
    using foreground_signal_recorded [OF c f11 s11, of "initial_shell 1000"]
    by (simp add: t os_child_segv_def)
  from c f2 s2 r2 f11 s11 r11 show ?thesis
    by blast
qed

end
